theory Spec2Isabelle
  imports Main "HOL-Library.AList"
begin

section \<open>Values\<close>

text \<open>
  The configuration module \<^verbatim>\<open>template/config/index.js\<close> builds one object literal,
  merges the overlay of the current environment into it with lodash's \<^verbatim>\<open>_.merge\<close>,
  computes two derived fields and then attaches live collaborators.

  Scalars are shared by both views of the configuration used below: the finite tree
  that the merge works on, and the store of objects with identity that the later
  assignments mutate. Numbers are integers here; no claim depends on fractions.
\<close>

datatype scalar = Undefined | Null | Boolean bool | Number int | String string

datatype kind = PlainObject | ArrayObject | FunctionObject | Instance

text \<open>
  A tree value is a scalar or an object: its kind (a plain object, an array, a function, or
  an instance of some other class) and its enumerable string-keyed properties in insertion
  order. An array \<^verbatim>\<open>[a, b]\<close> is \<open>Object ArrayObject [(''0'', a), (''1'', b)]\<close>: arrays
  are taken without holes, and their \<^verbatim>\<open>length\<close> is not a listed property.
\<close>

datatype jsval = Scalar scalar | Object kind "(string \<times> jsval) list"

type_synonym props = "(string \<times> jsval) list"

datatype error = TypeError | DanglingReference

fun truthy :: "scalar \<Rightarrow> bool" where
  "truthy Undefined = False"
| "truthy Null = False"
| "truthy (Boolean b) = b"
| "truthy (Number n) = (n \<noteq> 0)"
| "truthy (String s) = (s \<noteq> [])"

definition digit_char :: "nat \<Rightarrow> char" where
  "digit_char d = char_of (48 + d)"

text \<open>\<^verbatim>\<open>String(i)\<close> for an array index \<open>i\<close>: its decimal digits.\<close>

fun string_of_nat :: "nat \<Rightarrow> string" where
  "string_of_nat n =
     (if n < 10 then [digit_char n] else string_of_nat (n div 10) @ [digit_char (n mod 10)])"

declare string_of_nat.simps [simp del]

section \<open>The merge engine: lodash's merge on trees\<close>

text \<open>
  Line 238 of the module is
  \<^verbatim>\<open>if (_.isObject(environments[env.NODE_ENV])) _.merge(config, environments[env.NODE_ENV]);\<close>
  The functions below follow lodash 4.17 (\<^verbatim>\<open>isObject\<close>, \<^verbatim>\<open>baseMerge\<close>,
  \<^verbatim>\<open>baseMergeDeep\<close>, \<^verbatim>\<open>assignMergeValue\<close>, \<^verbatim>\<open>copyArray\<close>,
  \<^verbatim>\<open>isArrayLikeObject\<close>), called without a customizer. At line 238 \<^verbatim>\<open>config\<close> is a
  freshly evaluated literal, so the merge is modelled on trees: lodash's stack of visited
  sources (for cyclic sources) and its identity test \<^verbatim>\<open>object === source\<close> have no
  counterpart, and a function or class instance of the overlay, which lodash assigns by
  reference, is assigned as the same tree. Buffers, typed arrays and \<^verbatim>\<open>arguments\<close>
  objects are not represented. Property names are data keys, and a property list holds
  the own properties of an object. What lodash does beyond that is not followed: its
  \<^verbatim>\<open>safeGet\<close> reads \<^verbatim>\<open>undefined\<close> for \<^verbatim>\<open>__proto__\<close> and for a \<^verbatim>\<open>constructor\<close>
  that is a function, its test \<^verbatim>\<open>key in object\<close> also finds the names an object
  inherits, an assignment to the \<^verbatim>\<open>length\<close> of an array truncates the array, and
  copying an array-like object of \<^verbatim>\<open>2^32\<close> elements or more raises a RangeError. The
  predicate \<open>ordinary\<close> below describes overlays that meet none of these.
\<close>

fun isObject :: "jsval \<Rightarrow> bool" where
  "isObject (Object k ps) = True"
| "isObject (Scalar s) = False"

fun isFunction :: "jsval \<Rightarrow> bool" where
  "isFunction (Object FunctionObject ps) = True"
| "isFunction v = False"

fun isArray :: "jsval \<Rightarrow> bool" where
  "isArray (Object ArrayObject ps) = True"
| "isArray v = False"


fun kindOf :: "jsval \<Rightarrow> kind" where
  "kindOf (Object k ps) = k"
| "kindOf (Scalar s) = PlainObject"

fun propsOf :: "jsval \<Rightarrow> props" where
  "propsOf (Object k ps) = ps"
| "propsOf (Scalar s) = []"

text \<open>\<^verbatim>\<open>key in object\<close>, \<^verbatim>\<open>object[key]\<close> and \<^verbatim>\<open>object[key] = value\<close> on a property list.\<close>

definition hasKey :: "props \<Rightarrow> string \<Rightarrow> bool" where
  "hasKey ps k = (map_of ps k \<noteq> None)"

definition safeGet :: "props \<Rightarrow> string \<Rightarrow> jsval" where
  "safeGet ps k = (case map_of ps k of None \<Rightarrow> Scalar Undefined | Some v \<Rightarrow> v)"

definition baseAssignValue :: "props \<Rightarrow> string \<Rightarrow> jsval \<Rightarrow> props" where
  "baseAssignValue ps k v = AList.update k v ps"

definition MAX_SAFE_INTEGER :: int where
  "MAX_SAFE_INTEGER = 9007199254740991"

fun isLength :: "jsval \<Rightarrow> bool" where
  "isLength (Scalar (Number n)) = (0 \<le> n \<and> n \<le> MAX_SAFE_INTEGER)"
| "isLength v = False"

text \<open>
  \<^verbatim>\<open>isArrayLikeObject\<close>: an object that is not a function and whose \<^verbatim>\<open>length\<close> is a
  valid length. Every array is one.
\<close>

fun isArrayLikeObject :: "jsval \<Rightarrow> bool" where
  "isArrayLikeObject (Object ArrayObject ps) = True"
| "isArrayLikeObject (Object FunctionObject ps) = False"
| "isArrayLikeObject (Object k ps) = isLength (safeGet ps ''length'')"
| "isArrayLikeObject (Scalar s) = False"

fun lengthOf :: "jsval \<Rightarrow> nat" where
  "lengthOf (Scalar (Number n)) = nat n"
| "lengthOf v = 0"

definition copyArray :: "jsval \<Rightarrow> jsval" where
  "copyArray v =
     Object ArrayObject
       (map (\<lambda>i. (string_of_nat i, safeGet (propsOf v) (string_of_nat i)))
            [0 ..< lengthOf (safeGet (propsOf v) ''length'')])"

text \<open>
  \<^verbatim>\<open>assignMergeValue\<close> assigns unless the value is \<^verbatim>\<open>undefined\<close> and the key is already
  there. (lodash also skips the assignment when the stored value already is the new one,
  which changes nothing.)
\<close>

definition assignMergeValue :: "props \<Rightarrow> string \<Rightarrow> jsval \<Rightarrow> props" where
  "assignMergeValue ps k v =
     (if v \<noteq> Scalar Undefined \<or> (v = Scalar Undefined \<and> \<not> hasKey ps k)
      then baseAssignValue ps k v else ps)"

text \<open>
  \<^verbatim>\<open>baseMerge(object, source)\<close> visits the properties of the source in order. A source
  value that is an object goes to \<^verbatim>\<open>baseMergeDeep\<close>, which picks the destination of the
  recursive merge: for a source array, the destination's array (or a copy of an array-like
  destination, or a new array); for a plain source object, the destination's object unless
  that is no object or a function (then a new plain object); any other source object is
  assigned as it is.
\<close>

fun baseMerge :: "props \<Rightarrow> props \<Rightarrow> props"
  and baseMergeDeep :: "props \<Rightarrow> string \<Rightarrow> jsval \<Rightarrow> props" where
  "baseMerge ps [] = ps"
| "baseMerge ps ((k, srcValue) # src) =
     baseMerge (if isObject srcValue then baseMergeDeep ps k srcValue
                else assignMergeValue ps k srcValue) src"
| "baseMergeDeep ps k (Object ArrayObject sp) =
     (let objValue = safeGet ps k;
          newValue = (if isArray objValue then objValue
                      else if isArrayLikeObject objValue then copyArray objValue
                      else Object ArrayObject [])
      in assignMergeValue ps k (Object (kindOf newValue) (baseMerge (propsOf newValue) sp)))"
| "baseMergeDeep ps k (Object PlainObject sp) =
     (let objValue = safeGet ps k;
          newValue = (if \<not> isObject objValue \<or> isFunction objValue then Object PlainObject []
                      else objValue)
      in assignMergeValue ps k (Object (kindOf newValue) (baseMerge (propsOf newValue) sp)))"
| "baseMergeDeep ps k srcValue = assignMergeValue ps k srcValue"

text \<open>
  \<^verbatim>\<open>_.merge(object, source)\<close> with one source. The call site passes two objects, the
  only case that is modelled; any other pair leaves the destination as it is.
\<close>

fun merge :: "jsval \<Rightarrow> jsval \<Rightarrow> jsval" where
  "merge (Object k ps) (Object k' sp) = Object k (baseMerge ps sp)"
| "merge object source = object"

text \<open>Reading \<^verbatim>\<open>value[key]\<close>: a TypeError on \<^verbatim>\<open>undefined\<close> and \<^verbatim>\<open>null\<close>.\<close>

fun member :: "jsval \<Rightarrow> string \<Rightarrow> error + jsval" where
  "member (Scalar Undefined) k = Inl TypeError"
| "member (Scalar Null) k = Inl TypeError"
| "member (Scalar s) k = Inr (Scalar Undefined)"
| "member (Object kd ps) k = Inr (safeGet ps k)"

text \<open>
  Line 238. \<open>environments\<close> is what \<^verbatim>\<open>require('./environments')\<close> returns and
  \<open>NODE_ENV\<close> is \<^verbatim>\<open>env.NODE_ENV\<close>; both are inputs.
\<close>

definition mergeEnvironment :: "jsval \<Rightarrow> jsval \<Rightarrow> string \<Rightarrow> error + jsval" where
  "mergeEnvironment config environments NODE_ENV =
     (case member environments NODE_ENV of
        Inl e \<Rightarrow> Inl e
      | Inr overlay \<Rightarrow> Inr (if isObject overlay then merge config overlay else config))"







section \<open>The store: objects with identity\<close>

text \<open>
  From line 241 on the module assigns into \<^verbatim>\<open>config\<close> and shares objects between
  paths, so objects live in a store and are named by their address. A new object gets the
  next address. Besides its properties an object carries what the collaborator that made
  it keeps inside: the libraries behind \<^verbatim>\<open>Logger\<close>, \<^verbatim>\<open>I18N\<close>,
  \<^verbatim>\<open>nodemailer.createTransport\<close>, \<^verbatim>\<open>base64ToS3\<close> and the module \<^verbatim>\<open>./meta\<close>
  are not part of the sources, so what they return is an object that records how it was
  made.
\<close>

type_synonym addr = nat

datatype hval = Prim scalar | Ref addr

datatype internal =
    Ordinary
  | MetaResult hval
  | LoggerInstance hval
  | I18NInstance hval
  | TranslateFilter hval
  | MailTransport hval "(string \<times> hval) list"
  | Base64ToS3 hval

record obj =
  okind :: kind
  oprops :: "(string \<times> hval) list"
  ointernal :: internal

type_synonym store = "obj list"

text \<open>
  An object literal, and the objects the collaborators hand back: the result of
  \<^verbatim>\<open>meta(config)\<close>, \<^verbatim>\<open>new Logger(config)\<close>, \<^verbatim>\<open>new I18N(options)\<close>, the
  function of lines 252 to 254 that closes over the engine,
  \<^verbatim>\<open>nodemailer.createTransport(options)\<close> (no plugin registered yet) and the plugin
  function \<^verbatim>\<open>base64ToS3(options)\<close>.
\<close>

definition plainObject :: "(string \<times> hval) list \<Rightarrow> obj" where
  "plainObject ps = \<lparr>okind = PlainObject, oprops = ps, ointernal = Ordinary\<rparr>"

definition metaObject :: "hval \<Rightarrow> obj" where
  "metaObject config = \<lparr>okind = PlainObject, oprops = [], ointernal = MetaResult config\<rparr>"

definition newLogger :: "hval \<Rightarrow> obj" where
  "newLogger config = \<lparr>okind = Instance, oprops = [], ointernal = LoggerInstance config\<rparr>"

definition newI18N :: "hval \<Rightarrow> obj" where
  "newI18N options = \<lparr>okind = Instance, oprops = [], ointernal = I18NInstance options\<rparr>"

definition translateFunction :: "hval \<Rightarrow> obj" where
  "translateFunction i18n =
     \<lparr>okind = FunctionObject, oprops = [], ointernal = TranslateFilter i18n\<rparr>"

definition createTransport :: "hval \<Rightarrow> obj" where
  "createTransport options =
     \<lparr>okind = Instance, oprops = [], ointernal = MailTransport options []\<rparr>"

definition base64ToS3 :: "hval \<Rightarrow> obj" where
  "base64ToS3 options = \<lparr>okind = FunctionObject, oprops = [], ointernal = Base64ToS3 options\<rparr>"

definition bindE :: "error + 'a \<Rightarrow> ('a \<Rightarrow> error + 'b) \<Rightarrow> error + 'b" where
  "bindE m f = (case m of Inl e \<Rightarrow> Inl e | Inr x \<Rightarrow> f x)"

definition allocate :: "store \<Rightarrow> obj \<Rightarrow> hval \<times> store" where
  "allocate h ob = (Ref (length h), h @ [ob])"

definition lookupProp :: "(string \<times> hval) list \<Rightarrow> string \<Rightarrow> hval" where
  "lookupProp ps k = (case map_of ps k of None \<Rightarrow> Prim Undefined | Some v \<Rightarrow> v)"

text \<open>
  \<^verbatim>\<open>value.key\<close>: a TypeError on \<^verbatim>\<open>undefined\<close> and \<^verbatim>\<open>null\<close>; \<^verbatim>\<open>undefined\<close> on
  any other scalar (none of the names the module reads is a property of a scalar's
  prototype).
\<close>

fun getProp :: "store \<Rightarrow> hval \<Rightarrow> string \<Rightarrow> error + hval" where
  "getProp h (Prim Undefined) k = Inl TypeError"
| "getProp h (Prim Null) k = Inl TypeError"
| "getProp h (Prim s) k = Inr (Prim Undefined)"
| "getProp h (Ref a) k =
     (if a < length h then Inr (lookupProp (oprops (h ! a)) k) else Inl DanglingReference)"

text \<open>
  \<^verbatim>\<open>value.key = v\<close>: a TypeError on \<^verbatim>\<open>undefined\<close> and \<^verbatim>\<open>null\<close>; on any other
  scalar the assignment is dropped (the module is not in strict mode).
\<close>

fun setProp :: "store \<Rightarrow> hval \<Rightarrow> string \<Rightarrow> hval \<Rightarrow> error + store" where
  "setProp h (Prim Undefined) k v = Inl TypeError"
| "setProp h (Prim Null) k v = Inl TypeError"
| "setProp h (Prim s) k v = Inr h"
| "setProp h (Ref a) k v =
     (if a < length h
      then Inr (h[a := (h ! a)\<lparr>oprops := AList.update k v (oprops (h ! a))\<rparr>])
      else Inl DanglingReference)"

fun getPath :: "store \<Rightarrow> hval \<Rightarrow> string list \<Rightarrow> error + hval" where
  "getPath h v [] = Inr v"
| "getPath h v (k # ks) = bindE (getProp h v k) (\<lambda>v'. getPath h v' ks)"

text \<open>
  The own enumerable properties that an object spread \<^verbatim>\<open>{...value}\<close> and
  \<^verbatim>\<open>Object.assign({}, value)\<close> copy: those of an object, the characters of a string,
  nothing for any other scalar.
\<close>

fun ownProps :: "store \<Rightarrow> hval \<Rightarrow> error + (string \<times> hval) list" where
  "ownProps h (Ref a) = (if a < length h then Inr (oprops (h ! a)) else Inl DanglingReference)"
| "ownProps h (Prim (String s)) =
     Inr (map (\<lambda>i. (string_of_nat i, Prim (String [s ! i]))) [0 ..< length s])"
| "ownProps h (Prim s) = Inr []"

fun hTruthy :: "hval \<Rightarrow> bool" where
  "hTruthy (Prim s) = truthy s"
| "hTruthy (Ref a) = True"

fun validLength :: "hval \<Rightarrow> bool" where
  "validLength (Prim (Number n)) = (0 \<le> n \<and> n \<le> MAX_SAFE_INTEGER)"
| "validLength v = False"

fun lengthValue :: "hval \<Rightarrow> nat" where
  "lengthValue (Prim (Number n)) = nat n"
| "lengthValue v = 0"

text \<open>
  \<^verbatim>\<open>_.some(collection, bool => bool)\<close>: is some element truthy. lodash walks an array
  and an array-like collection (a string, or a non-function object with a valid
  \<^verbatim>\<open>length\<close>) by index and any other object by its own keys; \<^verbatim>\<open>null\<close>,
  \<^verbatim>\<open>undefined\<close> and the other scalars have no elements. An index past the end of an
  array reads \<^verbatim>\<open>undefined\<close>, which is not truthy, so walking the indices below the
  number of listed properties finds the same elements as walking those below
  \<^verbatim>\<open>length\<close>.
\<close>

fun some :: "store \<Rightarrow> hval \<Rightarrow> error + bool" where
  "some h (Prim (String s)) = Inr (s \<noteq> [])"
| "some h (Prim s) = Inr False"
| "some h (Ref a) =
     (if a < length h then
        (let ps = oprops (h ! a) in
         if okind (h ! a) = ArrayObject
         then Inr (list_ex (\<lambda>i. hTruthy (lookupProp ps (string_of_nat i))) [0 ..< length ps])
         else if okind (h ! a) \<noteq> FunctionObject \<and> validLength (lookupProp ps ''length'')
         then Inr (list_ex (\<lambda>i. hTruthy (lookupProp ps (string_of_nat i)))
                     [0 ..< lengthValue (lookupProp ps ''length'')])
         else Inr (list_ex (\<lambda>p. hTruthy (snd p)) ps))
      else Inl DanglingReference)"

text \<open>
  What the module takes from outside: the resolved environment map of \<^verbatim>\<open>./env\<close> (a
  name that is not set reads \<^verbatim>\<open>undefined\<close>), \<^verbatim>\<open>__dirname\<close>, Node's
  \<^verbatim>\<open>path.join\<close>, and the translate function \<^verbatim>\<open>api.t\<close> of a localization engine, given
  the options the engine was constructed from and the arguments of the call.
\<close>

record host =
  env :: "string \<Rightarrow> scalar"
  dirname :: string
  pathJoin :: "string list \<Rightarrow> string"
  apiT :: "store \<Rightarrow> hval \<Rightarrow> hval list \<Rightarrow> error + hval"

section \<open>Derived computation\<close>

text \<open>
  Line 241:
  \<^verbatim>\<open>config.auth.hasThirdPartyProviders = _.some(config.auth.providers, bool => bool);\<close>
\<close>

definition hasThirdPartyProviders :: "store \<Rightarrow> hval \<Rightarrow> error + store" where
  "hasThirdPartyProviders h config =
     bindE (getProp h config ''auth'') (\<lambda>auth.
     bindE (getProp h auth ''providers'') (\<lambda>providers.
     bindE (some h providers) (\<lambda>b.
     setProp h auth ''hasThirdPartyProviders'' (Prim (Boolean b)))))"

text \<open>
  Line 244: \<^verbatim>\<open>config.meta = meta(config);\<close> The result of \<^verbatim>\<open>meta\<close> is a new object
  that remembers its argument; \<^verbatim>\<open>meta\<close> is taken to leave the configuration alone.
\<close>

definition metaSupport :: "store \<Rightarrow> hval \<Rightarrow> error + store" where
  "metaSupport h config =
     (let (m, h1) = allocate h (metaObject config)
      in setProp h1 config ''meta'' m)"

definition derive :: "store \<Rightarrow> hval \<Rightarrow> error + store" where
  "derive h config = bindE (hasThirdPartyProviders h config) (\<lambda>h1. metaSupport h1 config)"

section \<open>Augmentation\<close>

text \<open>
  Lines 247 to 254:
  \<^verbatim>\<open>const logger = new Logger(config.logger);\<close>
  \<^verbatim>\<open>const i18n = new I18N({ ...config.i18n, logger });\<close>
  \<^verbatim>\<open>config.views.locals.filters.translate = function() { return i18n.api.t(...arguments); };\<close>
  The step returns the logger, which the mail transport receives as well.
\<close>

definition translateFilter :: "store \<Rightarrow> hval \<Rightarrow> error + (hval \<times> store)" where
  "translateFilter h config =
     bindE (getProp h config ''logger'') (\<lambda>loggerConfig.
     let (logger, h1) = allocate h (newLogger loggerConfig) in
     bindE (getProp h1 config ''i18n'') (\<lambda>i18nConfig.
     bindE (ownProps h1 i18nConfig) (\<lambda>ps.
     let (options, h2) = allocate h1 (plainObject (AList.update ''logger'' logger ps));
         (i18n, h3) = allocate h2 (newI18N options) in
     bindE (getProp h3 config ''views'') (\<lambda>views.
     bindE (getProp h3 views ''locals'') (\<lambda>locals.
     bindE (getProp h3 locals ''filters'') (\<lambda>filters.
     let (f, h4) = allocate h3 (translateFunction i18n) in
     bindE (setProp h4 filters ''translate'' f) (\<lambda>h5. Inr (logger, h5))))))))"

text \<open>Line 258: \<^verbatim>\<open>config.views.locals.config = config;\<close>\<close>

definition globalConfig :: "store \<Rightarrow> hval \<Rightarrow> error + store" where
  "globalConfig h config =
     bindE (getProp h config ''views'') (\<lambda>views.
     bindE (getProp h views ''locals'') (\<lambda>locals.
     setProp h locals ''config'' config))"

definition setInternal :: "store \<Rightarrow> addr \<Rightarrow> internal \<Rightarrow> store" where
  "setInternal h a i = h[a := (h ! a)\<lparr>ointernal := i\<rparr>]"

text \<open>
  \<^verbatim>\<open>transport.use(step, plugin)\<close> of nodemailer appends the plugin to the plugins
  registered for the step; calling it on anything but a transport is a TypeError.
\<close>

fun transportUse :: "store \<Rightarrow> hval \<Rightarrow> string \<Rightarrow> hval \<Rightarrow> error + store" where
  "transportUse h (Ref a) step plugin =
     (if a < length h then
        (case ointernal (h ! a) of
           MailTransport options plugins \<Rightarrow>
             Inr (setInternal h a (MailTransport options (plugins @ [(step, plugin)])))
         | _ \<Rightarrow> Inl TypeError)
      else Inl DanglingReference)"
| "transportUse h (Prim s) step plugin = Inl TypeError"

text \<open>
  Lines 261 to 278:
  \<^verbatim>\<open>config.email.transport = nodemailer.createTransport({ service: 'postmark',\<close>
  \<^verbatim>\<open>  auth: { user: env.POSTMARK_API_TOKEN, pass: env.POSTMARK_API_TOKEN }, logger });\<close>
  \<^verbatim>\<open>config.email.transport.use('compile',\<close>
  \<^verbatim>\<open>  base64ToS3({ cloudFrontDomainName: env.AWS_CF_DOMAIN, aws: config.aws }));\<close>
\<close>

definition emailTransport :: "host \<Rightarrow> hval \<Rightarrow> store \<Rightarrow> hval \<Rightarrow> error + store" where
  "emailTransport ext logger h config =
     bindE (getProp h config ''email'') (\<lambda>email.
     let (auth, h1) = allocate h
           (plainObject [(''user'', Prim (env ext ''POSTMARK_API_TOKEN'')),
                         (''pass'', Prim (env ext ''POSTMARK_API_TOKEN''))]);
         (options, h2) = allocate h1
           (plainObject [(''service'', Prim (String ''postmark'')), (''auth'', auth),
                         (''logger'', logger)]);
         (transport, h3) = allocate h2 (createTransport options) in
     bindE (setProp h3 email ''transport'' transport) (\<lambda>h4.
     bindE (getProp h4 config ''email'') (\<lambda>email'.
     bindE (getProp h4 email' ''transport'') (\<lambda>transport'.
     bindE (getProp h4 config ''aws'') (\<lambda>aws.
     let (pluginOptions, h5) = allocate h4
           (plainObject [(''cloudFrontDomainName'', Prim (env ext ''AWS_CF_DOMAIN'')),
                         (''aws'', aws)]);
         (plugin, h6) = allocate h5 (base64ToS3 pluginOptions) in
     transportUse h6 transport' ''compile'' plugin)))))"

text \<open>
  Lines 281 to 284:
  \<^verbatim>\<open>config.email.views = Object.assign({}, config.views);\<close>
  \<^verbatim>\<open>config.email.views.root = path.join(__dirname, '..', 'emails');\<close>
  \<^verbatim>\<open>config.email.i18n = config.i18n;\<close>
  \<^verbatim>\<open>config.email.juiceResources.webResources = { relativeTo: config.buildDir };\<close>
\<close>

definition emailViews :: "host \<Rightarrow> store \<Rightarrow> hval \<Rightarrow> error + store" where
  "emailViews ext h config =
     bindE (getProp h config ''email'') (\<lambda>email.
     bindE (getProp h config ''views'') (\<lambda>views.
     bindE (ownProps h views) (\<lambda>ps.
     let (copy, h1) = allocate h (plainObject ps) in
     bindE (setProp h1 email ''views'' copy) (\<lambda>h2.
     bindE (getProp h2 config ''email'') (\<lambda>email2.
     bindE (getProp h2 email2 ''views'') (\<lambda>emailViews.
     bindE (setProp h2 emailViews ''root''
              (Prim (String (pathJoin ext [dirname ext, ''..'', ''emails''])))) (\<lambda>h3.
     bindE (getProp h3 config ''email'') (\<lambda>email3.
     bindE (getProp h3 config ''i18n'') (\<lambda>i18n.
     bindE (setProp h3 email3 ''i18n'' i18n) (\<lambda>h4.
     bindE (getProp h4 config ''email'') (\<lambda>email4.
     bindE (getProp h4 email4 ''juiceResources'') (\<lambda>juiceResources.
     bindE (getProp h4 config ''buildDir'') (\<lambda>buildDir.
     let (webResources, h5) = allocate h4 (plainObject [(''relativeTo'', buildDir)]) in
     setProp h5 juiceResources ''webResources'' webResources)))))))))))))"

definition augment :: "host \<Rightarrow> store \<Rightarrow> hval \<Rightarrow> error + store" where
  "augment ext h config =
     bindE (translateFilter h config) (\<lambda>(logger, h1).
     bindE (globalConfig h1 config) (\<lambda>h2.
     bindE (emailTransport ext logger h2 config) (\<lambda>h3.
     emailViews ext h3 config)))"

text \<open>Lines 241 to 284, on the configuration left by the merge.\<close>

definition pipeline :: "host \<Rightarrow> store \<Rightarrow> hval \<Rightarrow> error + store" where
  "pipeline ext h config = bindE (derive h config) (\<lambda>h1. augment ext h1 config)"

text \<open>
  Calling the function stored as the translate filter:
  \<^verbatim>\<open>function() { return i18n.api.t(...arguments); }\<close> hands its arguments to the
  translate function of the engine it closes over.
\<close>

definition engineTranslate :: "host \<Rightarrow> store \<Rightarrow> hval \<Rightarrow> hval list \<Rightarrow> error + hval" where
  "engineTranslate ext h engine args =
     (case engine of
        Ref e \<Rightarrow>
          (if e < length h then
             (case ointernal (h ! e) of
                I18NInstance options \<Rightarrow> apiT ext h options args
              | _ \<Rightarrow> Inl TypeError)
           else Inl DanglingReference)
      | Prim s \<Rightarrow> Inl TypeError)"

definition callFilter :: "host \<Rightarrow> store \<Rightarrow> hval \<Rightarrow> hval list \<Rightarrow> error + hval" where
  "callFilter ext h f args =
     (case f of
        Ref a \<Rightarrow>
          (if a < length h then
             (case ointernal (h ! a) of
                TranslateFilter i18n \<Rightarrow> engineTranslate ext h i18n args
              | _ \<Rightarrow> Inl TypeError)
           else Inl DanglingReference)
      | Prim s \<Rightarrow> Inl TypeError)"

text \<open>
  Writing a property of the object that a path of the configuration leads to, and reading
  a property, in a later store, of the object that a path led to in an earlier one.
\<close>

definition writeThrough :: "store \<Rightarrow> hval \<Rightarrow> string list \<Rightarrow> string \<Rightarrow> hval \<Rightarrow> error + store" where
  "writeThrough h config path k v = bindE (getPath h config path) (\<lambda>object. setProp h object k v)"

definition readThrough :: "store \<Rightarrow> store \<Rightarrow> hval \<Rightarrow> string list \<Rightarrow> string \<Rightarrow> error + hval" where
  "readThrough h h2 config path k = bindE (getPath h config path) (\<lambda>object. getProp h2 object k)"

text \<open>
  A deep traversal that follows every property and keeps no record of the objects it has
  seen, counting the values it meets. \<open>None\<close>: the given number of nested calls did not
  suffice.
\<close>

fun sumOptions :: "nat option list \<Rightarrow> nat option" where
  "sumOptions [] = Some 0"
| "sumOptions (None # xs) = None"
| "sumOptions (Some n # xs) = (case sumOptions xs of None \<Rightarrow> None | Some m \<Rightarrow> Some (n + m))"

fun deepCount :: "nat \<Rightarrow> store \<Rightarrow> hval \<Rightarrow> nat option" where
  "deepCount 0 h v = None"
| "deepCount (Suc fuel) h (Prim s) = Some 1"
| "deepCount (Suc fuel) h (Ref a) =
     (if a < length h
      then (case sumOptions (map (\<lambda>p. deepCount fuel h (snd p)) (oprops (h ! a))) of
              None \<Rightarrow> None
            | Some n \<Rightarrow> Some (Suc n))
      else Some 1)"


text \<open>
  A store is closed when every reference held in a property names an allocated object.
  The stores of the program are closed: a reference is only ever obtained from an
  allocation.
\<close>

fun validRef :: "nat \<Rightarrow> hval \<Rightarrow> bool" where
  "validRef n (Ref b) = (b < n)"
| "validRef n (Prim s) = True"

definition closedStore :: "store \<Rightarrow> bool" where
  "closedStore h = list_all (\<lambda>ob. list_all (\<lambda>p. validRef (length h) (snd p)) (oprops ob)) h"

text \<open>Reading and writing a property of the object at an address.\<close>

definition rd :: "store \<Rightarrow> addr \<Rightarrow> string \<Rightarrow> hval" where
  "rd h a k = lookupProp (oprops (h ! a)) k"

definition wr :: "store \<Rightarrow> addr \<Rightarrow> string \<Rightarrow> hval \<Rightarrow> store" where
  "wr h a k v = h[a := (h ! a)\<lparr>oprops := AList.update k v (oprops (h ! a))\<rparr>]"


text \<open>An assignment through a value: dropped when the value is a scalar.\<close>

fun wrv :: "store \<Rightarrow> hval \<Rightarrow> string \<Rightarrow> hval \<Rightarrow> store" where
  "wrv h (Ref a) k v = wr h a k v"
| "wrv h (Prim s) k v = h"


section \<open>Page metadata\<close>

text \<open>
  Modelled from the spec: the module \<^verbatim>\<open>./meta\<close> that line 244 calls is not part of the
  sources. The spec has it synthesize the metadata of a page from a template keyed by the
  page identifier, by string substitution of the application name, and yield a defined
  default for a page key that has no template. The placeholder is \<^verbatim>\<open>{app}\<close>, as in the
  spec's example; the templates and the default are inputs.
\<close>

function substitute :: "string \<Rightarrow> string \<Rightarrow> string" where
  "substitute app [] = []"
| "substitute app (c # cs) =
     (if take 5 (c # cs) = ''{app}'' then app @ substitute app (drop 4 cs)
      else c # substitute app cs)"
  by pat_completeness auto

termination
  by (relation "measure (\<lambda>(app, template). length template)") auto



section \<open>Names fixed by the module\<close>


text \<open>
  What a path of the exported configuration holds after lines 241 to 284, and after lines
  247 to 284 alone.
\<close>

definition exported :: "host \<Rightarrow> store \<Rightarrow> hval \<Rightarrow> string list \<Rightarrow> error + hval" where
  "exported ext h config path = bindE (pipeline ext h config) (\<lambda>h'. getPath h' config path)"


section \<open>An example configuration\<close>

text \<open>
  The part of the literal of lines 18 to 235 that the later lines read, as a store, with
  example values for the environment: the configuration object at address 0, its
  \<^verbatim>\<open>email\<close>, \<^verbatim>\<open>logger\<close>, \<^verbatim>\<open>i18n\<close>, \<^verbatim>\<open>aws\<close>, \<^verbatim>\<open>views\<close> and \<^verbatim>\<open>auth\<close>
  objects as the literal nests them (\<^verbatim>\<open>utilities\<close> taken empty, \<^verbatim>\<open>consolidate\<close> an
  opaque instance).
\<close>

definition exampleStore :: store where
  "exampleStore =
    [plainObject [(''email'', Ref 1), (''logger'', Ref 4), (''appName'', Prim (String ''Lad'')),
                  (''i18n'', Ref 5), (''aws'', Ref 7), (''buildDir'', Prim (String ''/srv/app/build'')),
                  (''views'', Ref 9), (''auth'', Ref 15)],
     plainObject [(''message'', Ref 2), (''send'', Prim (Boolean False)), (''juiceResources'', Ref 3)],
     plainObject [(''from'', Prim (String ''support@example.com''))],
     plainObject [(''preserveImportant'', Prim (Boolean True))],
     plainObject [(''showStack'', Prim (Boolean True)), (''appName'', Prim (String ''Lad''))],
     plainObject [(''phrases'', Ref 6), (''directory'', Prim (String ''/srv/app/locales''))],
     plainObject [(''HELLO'', Prim (String ''Hello''))],
     plainObject [(''key'', Prim (String ''AKIA'')), (''accessKeyId'', Prim (String ''AKIA'')),
                  (''secret'', Prim (String ''s3cr3t'')), (''secretAccessKey'', Prim (String ''s3cr3t'')),
                  (''distributionId'', Prim Undefined),
                  (''domainName'', Prim (String ''cdn.example.com'')), (''params'', Ref 8)],
     plainObject [(''Bucket'', Prim (String ''lad-assets''))],
     plainObject [(''root'', Prim (String ''/srv/app/app/views'')), (''options'', Ref 10),
                  (''locals'', Ref 13)],
     plainObject [(''extension'', Prim (String ''pug'')), (''map'', Ref 11), (''engineSource'', Ref 12)],
     plainObject [],
     \<lparr>okind = Instance, oprops = [], ointernal = Ordinary\<rparr>,
     plainObject [(''pretty'', Prim (Boolean True)), (''cache'', Prim (Boolean True)),
                  (''filters'', Ref 14)],
     plainObject [],
     plainObject [(''local'', Prim (Boolean True)), (''providers'', Ref 16)],
     plainObject [(''facebook'', Prim (Boolean False)), (''twitter'', Prim (Boolean False)),
                  (''google'', Prim (Boolean True)), (''github'', Prim (Boolean False)),
                  (''linkedin'', Prim (Boolean False)), (''instagram'', Prim (Boolean False)),
                  (''stripe'', Prim (Boolean False))]]"

text \<open>
  An example host: two environment variables set, a \<^verbatim>\<open>path.join\<close> that knows the one
  path the module joins, and an engine that translates every key to itself.
\<close>

definition exampleHost :: host where
  "exampleHost =
     \<lparr>env = (\<lambda>name. if name = ''POSTMARK_API_TOKEN'' then String ''postmark-token''
                    else if name = ''AWS_CF_DOMAIN'' then String ''cdn.example.com''
                    else Undefined),
      dirname = ''/srv/app/config'',
      pathJoin = (\<lambda>parts. if parts = [''/srv/app/config'', ''..'', ''emails'']
                         then ''/srv/app/emails'' else concat parts),
      apiT = (\<lambda>h options args. case args of [] \<Rightarrow> Inr (Prim Undefined) | key # rest \<Rightarrow> Inr key)\<rparr>"

text \<open>
  Three configurations that an overlay can leave behind: every named provider switched
  off and one more provider switched on; the filters of the view locals replaced by a
  boolean; and \<^verbatim>\<open>email.juiceResources.webResources\<close> already set.
\<close>

definition extraProviderStore :: store where
  "extraProviderStore =
     exampleStore[16 := plainObject
       [(''facebook'', Prim (Boolean False)), (''twitter'', Prim (Boolean False)),
        (''google'', Prim (Boolean False)), (''github'', Prim (Boolean False)),
        (''linkedin'', Prim (Boolean False)), (''instagram'', Prim (Boolean False)),
        (''stripe'', Prim (Boolean False)), (''okta'', Prim (Boolean True))]]"

definition scalarFiltersStore :: store where
  "scalarFiltersStore =
     exampleStore[13 := plainObject
       [(''pretty'', Prim (Boolean True)), (''cache'', Prim (Boolean True)),
        (''filters'', Prim (Boolean True))]]"



section \<open>Properties of the merge engine\<close>




lemma hasKey_iff: "hasKey ps k \<longleftrightarrow> k \<in> fst ` set ps"
  by (simp add: hasKey_def map_of_eq_None_iff)

lemma keys_assign:
  "map fst (assignMergeValue ps k v) = (if hasKey ps k then map fst ps else map fst ps @ [k])"
  by (simp add: assignMergeValue_def baseAssignValue_def hasKey_iff update_keys)






















text \<open>
  C2. When the table of overlays has no entry for the current environment name, or the
  entry is not an object, line 238 leaves the configuration as it is and raises nothing.
\<close>

theorem absent_overlay_is_identity:
  assumes "map_of envs NODE_ENV = None \<or> (\<exists>v. map_of envs NODE_ENV = Some v \<and> \<not> isObject v)"
  shows "mergeEnvironment config (Object k envs) NODE_ENV = Inr config"
  using assms by (auto simp add: mergeEnvironment_def safeGet_def)

theorem absent_overlay_is_identity_witness:
  "mergeEnvironment (Object PlainObject [(''appName'', Scalar (String ''Lad''))])
     (Object PlainObject
        [(''production'', Object PlainObject [(''appName'', Scalar (String ''Lad Production''))]),
         (''staging'', Scalar (String ''none''))])
     ''test'' =
   Inr (Object PlainObject [(''appName'', Scalar (String ''Lad''))])"
  using absent_overlay_is_identity [of
      "[(''production'', Object PlainObject [(''appName'', Scalar (String ''Lad Production''))]),
        (''staging'', Scalar (String ''none''))]"
      "''test''" "Object PlainObject [(''appName'', Scalar (String ''Lad''))]" PlainObject]
  by simp



section \<open>Reading and writing the store\<close>

lemma bindE_Inr_iff [simp]: "bindE m f = Inr y \<longleftrightarrow> (\<exists>x. m = Inr x \<and> f x = Inr y)"
  by (cases m) (simp_all add: bindE_def)

lemma bindE_simps [simp]: "bindE (Inr x) f = f x" "bindE (Inl e) f = Inl e"
  by (simp_all add: bindE_def)

lemma length_wr [simp]: "length (wr h a k v) = length h"
  by (simp add: wr_def)

lemma wr_beyond: "\<not> b < length h \<Longrightarrow> wr h b k v = h"
  by (simp add: wr_def not_less list_update_beyond)

lemma nth_wr:
  "b < length h \<Longrightarrow>
   wr h b k v ! a = (if a = b then (h ! b)\<lparr>oprops := AList.update k v (oprops (h ! b))\<rparr> else h ! a)"
  by (simp add: wr_def nth_list_update)

lemma rd_wr: "rd (wr h b k' v) a k = (if a = b \<and> k = k' \<and> b < length h then v else rd h a k)"
  by (cases "b < length h") (auto simp add: rd_def wr_beyond nth_wr lookupProp_def update_conv')

lemma rd_append: "a < length h \<Longrightarrow> rd (h @ [ob]) a k = rd h a k"
  by (simp add: rd_def nth_append)

lemma rd_append_new: "rd (h @ [ob]) (length h) k = lookupProp (oprops ob) k"
  by (simp add: rd_def)

lemma okind_wr [simp]: "okind (wr h b k v ! a) = okind (h ! a)"
  by (cases "b < length h") (auto simp add: wr_beyond nth_wr)

lemma ointernal_wr [simp]: "ointernal (wr h b k v ! a) = ointernal (h ! a)"
  by (cases "b < length h") (auto simp add: wr_beyond nth_wr)

lemma getProp_Inr:
  "getProp h v k = Inr x \<longleftrightarrow>
     (\<exists>a. v = Ref a \<and> a < length h \<and> x = rd h a k) \<or>
     (\<exists>s. v = Prim s \<and> s \<noteq> Undefined \<and> s \<noteq> Null \<and> x = Prim Undefined)"
  by (cases "(h, v, k)" rule: getProp.cases) (auto simp add: rd_def)

lemma setProp_Inr:
  "setProp h v k x = Inr h' \<longleftrightarrow>
     (\<exists>a. v = Ref a \<and> a < length h \<and> h' = wr h a k x) \<or>
     (\<exists>s. v = Prim s \<and> s \<noteq> Undefined \<and> s \<noteq> Null \<and> h' = h)"
  by (cases "(h, v, k, x)" rule: setProp.cases) (auto simp add: wr_def)

lemma validRef_mono: "validRef n v \<Longrightarrow> n \<le> m \<Longrightarrow> validRef m v"
  by (cases v) auto

lemma closedStore_alt:
  "closedStore h \<longleftrightarrow> (\<forall>a<length h. \<forall>p \<in> set (oprops (h ! a)). validRef (length h) (snd p))"
  unfolding closedStore_def list_all_iff
  by (metis in_set_conv_nth)

lemma closed_rd: 
  assumes "closedStore h" "a < length h"
  shows "validRef (length h) (rd h a k)"
proof (cases "map_of (oprops (h ! a)) k")
  case None
  then show ?thesis by (simp add: rd_def lookupProp_def)
next
  case (Some v)
  then have "(k, v) \<in> set (oprops (h ! a))" by (rule map_of_SomeD)
  then have "validRef (length h) v" using assms by (force simp add: closedStore_alt)
  then show ?thesis using Some by (simp add: rd_def lookupProp_def)
qed

lemma set_update_subset: "set (AList.update k v ps) \<subseteq> insert (k, v) (set ps)"
  by (induction ps) auto

lemma closed_wr:
  assumes "closedStore h" "validRef (length h) v"
  shows "closedStore (wr h a k v)"
proof (cases "a < length h")
  case False
  then show ?thesis using assms by (simp add: wr_beyond)
next
  case True
  show ?thesis
    unfolding closedStore_alt
  proof (intro allI impI ballI)
    fix i p assume i: "i < length (wr h a k v)" and p: "p \<in> set (oprops (wr h a k v ! i))"
    show "validRef (length (wr h a k v)) (snd p)"
    proof (cases "i = a")
      case True
      with i p \<open>a < length h\<close> have "p \<in> insert (k, v) (set (oprops (h ! a)))"
        using set_update_subset [of k v "oprops (h ! a)"] by (auto simp add: nth_wr)
      then show ?thesis
        using assms True i by (auto simp add: closedStore_alt)
    next
      case False
      with i p \<open>a < length h\<close> have "p \<in> set (oprops (h ! i))" by (simp add: nth_wr)
      then show ?thesis using assms(1) i by (auto simp add: closedStore_alt)
    qed
  qed
qed

lemma closed_append:
  assumes "closedStore h" "list_all (\<lambda>p. validRef (Suc (length h)) (snd p)) (oprops ob)"
  shows "closedStore (h @ [ob])"
  unfolding closedStore_alt
proof (intro allI impI ballI)
  fix i p assume i: "i < length (h @ [ob])" and p: "p \<in> set (oprops ((h @ [ob]) ! i))"
  show "validRef (length (h @ [ob])) (snd p)"
  proof (cases "i < length h")
    case True
    with p have "p \<in> set (oprops (h ! i))" by (simp add: nth_append)
    then have "validRef (length h) (snd p)" using assms(1) True by (auto simp add: closedStore_alt)
    then show ?thesis by (rule validRef_mono) simp
  next
    case False
    with i have "i = length h" by simp
    with p assms(2) show ?thesis by (simp add: list_all_iff)
  qed
qed



declare getProp.simps [simp del] setProp.simps [simp del]

lemma validRef_less: "validRef n v \<Longrightarrow> v \<noteq> Ref n"
  by (cases v) auto

lemma getProp_append:
  "getProp (h @ [ob]) v k =
     (if v = Ref (length h) then Inr (lookupProp (oprops ob) k) else getProp h v k)"
  by (cases "(h, v, k)" rule: getProp.cases) (auto simp add: getProp.simps nth_append)

lemma getProp_append_old [simp]:
  "validRef (length h) v \<Longrightarrow> getProp (h @ [ob]) v k = getProp h v k"
  by (simp add: getProp_append validRef_less)

lemma getProp_wr:
  "getProp (wr h a k' x) v k =
     (if k = k' \<and> v = Ref a \<and> a < length h then Inr x else getProp h v k)"
  by (cases "(h, v, k)" rule: getProp.cases) (auto simp add: getProp.simps rd_wr [unfolded rd_def])

lemma getProp_wrv:
  "getProp (wrv h t k' x) v k =
     (if k = k' \<and> v = t \<and> (\<exists>a. t = Ref a \<and> a < length h) then Inr x else getProp h v k)"
  by (cases t) (auto simp add: getProp_wr)

lemma length_wrv [simp]: "length (wrv h t k v) = length h"
  by (cases t) simp_all

lemma length_setInternal [simp]: "length (setInternal h a i) = length h"
  by (simp add: setInternal_def)

lemma oprops_setInternal [simp]: "oprops (setInternal h a i ! b) = oprops (h ! b)"
  by (cases "a < length h")
     (auto simp add: setInternal_def nth_list_update list_update_beyond not_less)

lemma okind_setInternal [simp]: "okind (setInternal h a i ! b) = okind (h ! b)"
  by (cases "a < length h")
     (auto simp add: setInternal_def nth_list_update list_update_beyond not_less)

lemma ointernal_setInternal:
  "ointernal (setInternal h a i ! b) = (if b = a \<and> a < length h then i else ointernal (h ! b))"
  by (cases "a < length h")
     (auto simp add: setInternal_def nth_list_update list_update_beyond not_less)

lemma getProp_setInternal [simp]: "getProp (setInternal h a i) v k = getProp h v k"
  by (cases "(h, v, k)" rule: getProp.cases) (auto simp add: getProp.simps)

lemma getProp_valid:
  "closedStore h \<Longrightarrow> getProp h v k = Inr x \<Longrightarrow> validRef (length h) x"
  by (auto simp add: getProp_Inr closed_rd)

lemma getProp_source:
  "getProp h v k = Inr x \<Longrightarrow> validRef (length h) v \<and> v \<noteq> Prim Undefined \<and> v \<noteq> Prim Null"
  by (auto simp add: getProp_Inr)

lemma setProp_Inr_wrv:
  "setProp h v k x = Inr h' \<longleftrightarrow>
     validRef (length h) v \<and> v \<noteq> Prim Undefined \<and> v \<noteq> Prim Null \<and> h' = wrv h v k x"
  by (cases "(h, v, k, x)" rule: setProp.cases) (auto simp add: setProp.simps wr_def)

lemma closed_wrv:
  "closedStore h \<Longrightarrow> validRef (length h) v \<Longrightarrow> closedStore (wrv h t k v)"
  by (cases t) (simp_all add: closed_wr)

lemma closed_setInternal [simp]: "closedStore (setInternal h a i) = closedStore h"
  by (simp add: closedStore_alt)

declare ownProps.simps [simp del]

lemma ownProps_valid:
  "closedStore h \<Longrightarrow> ownProps h v = Inr ps \<Longrightarrow> list_all (\<lambda>p. validRef (length h) (snd p)) ps"
  by (cases "(h, v)" rule: ownProps.cases)
     (auto simp add: ownProps.simps closedStore_alt list_all_iff split: if_splits)

lemma getProp_append_list [simp]:
  "validRef (length h) v \<Longrightarrow> getProp (h @ xs) v k = getProp h v k"
  by (cases "(h, v, k)" rule: getProp.cases) (auto simp add: getProp.simps nth_append)

lemma ownProps_append_list [simp]:
  "validRef (length h) v \<Longrightarrow> ownProps (h @ xs) v = ownProps h v"
  by (cases "(h, v)" rule: ownProps.cases) (auto simp add: ownProps.simps nth_append)

lemma globalConfig_result:
  assumes "globalConfig h config = Inr h'"
  shows "\<exists>views locals.
           getProp h config ''views'' = Inr views \<and> getProp h views ''locals'' = Inr locals \<and>
           locals \<noteq> Prim Undefined \<and> locals \<noteq> Prim Null \<and>
           h' = wrv h locals ''config'' config"
  using assms by (auto simp add: globalConfig_def setProp_Inr_wrv)

lemma hasThirdPartyProviders_result:
  assumes "hasThirdPartyProviders h config = Inr h'"
  shows "\<exists>auth providers b.
           getProp h config ''auth'' = Inr auth \<and> getProp h auth ''providers'' = Inr providers \<and>
           some h providers = Inr b \<and>
           h' = wrv h auth ''hasThirdPartyProviders'' (Prim (Boolean b))"
  using assms by (auto simp add: hasThirdPartyProviders_def setProp_Inr_wrv)

lemma metaSupport_result:
  assumes "metaSupport h config = Inr h'"
  shows "h' = wrv (h @ [metaObject config]) config ''meta'' (Ref (length h))"
  using assms by (auto simp add: metaSupport_def allocate_def setProp_Inr_wrv)

lemma translateFilter_result:
  assumes "translateFilter h config = Inr (logger, h')" "closedStore h"
  shows "\<exists>loggerConfig i18nConfig ps views locals filters.
           getProp h config ''logger'' = Inr loggerConfig \<and>
           getProp h config ''i18n'' = Inr i18nConfig \<and>
           ownProps h i18nConfig = Inr ps \<and>
           getProp h config ''views'' = Inr views \<and>
           getProp h views ''locals'' = Inr locals \<and>
           getProp h locals ''filters'' = Inr filters \<and>
           filters \<noteq> Prim Undefined \<and> filters \<noteq> Prim Null \<and>
           logger = Ref (length h) \<and>
           h' = wrv (h @ [newLogger loggerConfig,
                          plainObject (AList.update ''logger'' (Ref (length h)) ps),
                          newI18N (Ref (Suc (length h))),
                          translateFunction (Ref (Suc (Suc (length h))))])
                  filters ''translate'' (Ref (Suc (Suc (Suc (length h)))))"
proof -
  from assms(1) obtain loggerConfig i18nConfig ps views locals filters where
    1: "getProp h config ''logger'' = Inr loggerConfig"
    and 2: "getProp (h @ [newLogger loggerConfig]) config ''i18n'' = Inr i18nConfig"
    and 3: "ownProps (h @ [newLogger loggerConfig]) i18nConfig = Inr ps"
    and 4: "getProp (h @ [newLogger loggerConfig,
              plainObject (AList.update ''logger'' (Ref (length h)) ps),
              newI18N (Ref (Suc (length h)))]) config ''views'' = Inr views"
    and 5: "getProp (h @ [newLogger loggerConfig,
              plainObject (AList.update ''logger'' (Ref (length h)) ps),
              newI18N (Ref (Suc (length h)))]) views ''locals'' = Inr locals"
    and 6: "getProp (h @ [newLogger loggerConfig,
              plainObject (AList.update ''logger'' (Ref (length h)) ps),
              newI18N (Ref (Suc (length h)))]) locals ''filters'' = Inr filters"
    and 7: "setProp (h @ [newLogger loggerConfig,
              plainObject (AList.update ''logger'' (Ref (length h)) ps),
              newI18N (Ref (Suc (length h))),
              translateFunction (Ref (Suc (Suc (length h))))])
              filters ''translate'' (Ref (Suc (Suc (Suc (length h))))) = Inr h'"
    and 8: "logger = Ref (length h)"
    by (auto simp add: translateFilter_def allocate_def Let_def)
  have vc: "validRef (length h) config" using 1 by (simp add: getProp_source)
  have r2: "getProp h config ''i18n'' = Inr i18nConfig" using 2 vc by simp
  have vi: "validRef (length h) i18nConfig" using r2 assms(2) by (rule getProp_valid [rotated])
  have r3: "ownProps h i18nConfig = Inr ps" using 3 vi by simp
  have r4: "getProp h config ''views'' = Inr views" using 4 vc by simp
  have vv: "validRef (length h) views" using r4 assms(2) by (rule getProp_valid [rotated])
  have r5: "getProp h views ''locals'' = Inr locals" using 5 vv by simp
  have vl: "validRef (length h) locals" using r5 assms(2) by (rule getProp_valid [rotated])
  have r6: "getProp h locals ''filters'' = Inr filters" using 6 vl by simp
  show ?thesis
    using 1 r2 r3 r4 r5 r6 7 8 by (simp add: setProp_Inr_wrv)
qed

lemma transportUse_Inr:
  "transportUse h t step plugin = Inr h' \<longleftrightarrow>
     (\<exists>a options plugins. t = Ref a \<and> a < length h \<and>
        ointernal (h ! a) = MailTransport options plugins \<and>
        h' = setInternal h a (MailTransport options (plugins @ [(step, plugin)])))"
  by (cases "(h, t, step, plugin)" rule: transportUse.cases)
     (auto split: internal.splits)

lemma ointernal_wrv [simp]: "ointernal (wrv h t k v ! a) = ointernal (h ! a)"
  by (cases t) simp_all

lemma okind_wrv [simp]: "okind (wrv h t k v ! a) = okind (h ! a)"
  by (cases t) simp_all

lemma emailTransport_result:
  assumes "emailTransport ext logger h config = Inr h'" "closedStore h"
  shows "\<exists>e aws.
           getProp h config ''email'' = Inr (Ref e) \<and> getProp h config ''aws'' = Inr aws \<and>
           h' = setInternal
                  (wr (h @ [plainObject [(''user'', Prim (env ext ''POSTMARK_API_TOKEN'')),
                                         (''pass'', Prim (env ext ''POSTMARK_API_TOKEN''))],
                            plainObject [(''service'', Prim (String ''postmark'')),
                                         (''auth'', Ref (length h)), (''logger'', logger)],
                            createTransport (Ref (Suc (length h)))])
                      e ''transport'' (Ref (Suc (Suc (length h))))
                   @ [plainObject [(''cloudFrontDomainName'', Prim (env ext ''AWS_CF_DOMAIN'')),
                                   (''aws'', aws)],
                      base64ToS3 (Ref (Suc (Suc (Suc (length h)))))])
                  (Suc (Suc (length h)))
                  (MailTransport (Ref (Suc (length h)))
                     [(''compile'', Ref (Suc (Suc (Suc (Suc (length h))))))])"
proof -
  let ?A = "plainObject [(''user'', Prim (env ext ''POSTMARK_API_TOKEN'')),
                         (''pass'', Prim (env ext ''POSTMARK_API_TOKEN''))]"
  let ?O = "plainObject [(''service'', Prim (String ''postmark'')),
                         (''auth'', Ref (length h)), (''logger'', logger)]"
  let ?T = "createTransport (Ref (Suc (length h)))"
  let ?h3 = "h @ [?A, ?O, ?T]"
  from assms(1) obtain email h4 email' transport' aws where
    1: "getProp h config ''email'' = Inr email"
    and 2: "setProp ?h3 email ''transport'' (Ref (Suc (Suc (length h)))) = Inr h4"
    and 3: "getProp h4 config ''email'' = Inr email'"
    and 4: "getProp h4 email' ''transport'' = Inr transport'"
    and 5: "getProp h4 config ''aws'' = Inr aws"
    and 6: "transportUse (h4 @ [plainObject [(''cloudFrontDomainName'', Prim (env ext ''AWS_CF_DOMAIN'')),
                                   (''aws'', aws)],
                      base64ToS3 (Ref (length h4))]) transport' ''compile''
               (Ref (Suc (length h4))) = Inr h'"
    by (auto simp add: emailTransport_def allocate_def Let_def)
  have vc: "validRef (length h) config" using 1 by (simp add: getProp_source)
  have ve: "validRef (length h) email" using 1 assms(2) by (rule getProp_valid [rotated])
  have h4: "h4 = wrv ?h3 email ''transport'' (Ref (Suc (Suc (length h))))"
    using 2 by (simp add: setProp_Inr_wrv)
  have r3: "email' = email" using 3 1 vc unfolding h4 by (simp add: getProp_wrv)
  have r5: "getProp h config ''aws'' = Inr aws" using 5 vc unfolding h4 by (simp add: getProp_wrv)
  obtain t where t: "transport' = Ref t"
    using 6 by (auto simp add: transportUse_Inr)
  obtain e where e: "email = Ref e" "e < length h"
    using 4 t ve unfolding h4 r3 by (cases email) (auto simp add: getProp_Inr)
  have r4: "transport' = Ref (Suc (Suc (length h)))"
    using 4 e unfolding h4 r3 by (simp add: getProp_wr)
  have "ointernal (wr ?h3 e ''transport'' (Ref (Suc (Suc (length h)))) ! Suc (Suc (length h))) = MailTransport (Ref (Suc (length h))) []"
    by (simp add: nth_append createTransport_def)
  then show ?thesis
    using 1 r5 6 e unfolding h4 r4 by (auto simp add: transportUse_Inr nth_append)
qed


lemma emailViews_result:
  assumes "emailViews ext h config = Inr h'" "closedStore h"
  shows "\<exists>e views ps i18n juice buildDir.
           getProp h config ''email'' = Inr (Ref e) \<and> e < length h \<and>
           getProp h config ''views'' = Inr views \<and> ownProps h views = Inr ps \<and>
           getProp h config ''i18n'' = Inr i18n \<and>
           getProp h (Ref e) ''juiceResources'' = Inr juice \<and>
           juice \<noteq> Prim Undefined \<and> juice \<noteq> Prim Null \<and>
           getProp h config ''buildDir'' = Inr buildDir \<and>
           h' = wrv (wr (wr (wr (h @ [plainObject ps]) e ''views'' (Ref (length h)))
                            (length h) ''root''
                            (Prim (String (pathJoin ext [dirname ext, ''..'', ''emails'']))))
                        e ''i18n'' i18n
                     @ [plainObject [(''relativeTo'', buildDir)]])
                  juice ''webResources'' (Ref (Suc (length h)))"
proof -
  let ?R = "Prim (String (pathJoin ext [dirname ext, ''..'', ''emails'']))"
  from assms(1) obtain email views ps h2 email2 emailViews h3 email3 i18n h4 email4 juice buildDir
    where 1: "getProp h config ''email'' = Inr email"
    and 2: "getProp h config ''views'' = Inr views"
    and 3: "ownProps h views = Inr ps"
    and 4: "setProp (h @ [plainObject ps]) email ''views'' (Ref (length h)) = Inr h2"
    and 5: "getProp h2 config ''email'' = Inr email2"
    and 6: "getProp h2 email2 ''views'' = Inr emailViews"
    and 7: "setProp h2 emailViews ''root'' ?R = Inr h3"
    and 8: "getProp h3 config ''email'' = Inr email3"
    and 9: "getProp h3 config ''i18n'' = Inr i18n"
    and 10: "setProp h3 email3 ''i18n'' i18n = Inr h4"
    and 11: "getProp h4 config ''email'' = Inr email4"
    and 12: "getProp h4 email4 ''juiceResources'' = Inr juice"
    and 13: "getProp h4 config ''buildDir'' = Inr buildDir"
    and 14: "setProp (h4 @ [plainObject [(''relativeTo'', buildDir)]]) juice ''webResources''
               (Ref (length h4)) = Inr h'"
    by (auto simp add: emailViews_def allocate_def Let_def)
  have vc: "validRef (length h) config" using 1 by (simp add: getProp_source)
  have ve: "validRef (length h) email" using 1 assms(2) by (rule getProp_valid [rotated])
  have h2: "h2 = wrv (h @ [plainObject ps]) email ''views'' (Ref (length h))"
    using 4 by (simp add: setProp_Inr_wrv)
  have r5: "email2 = email" using 5 1 vc unfolding h2 by (simp add: getProp_wrv)
  have "emailViews \<noteq> Prim Undefined" using 7 by (simp add: setProp_Inr_wrv)
  then obtain e where e: "email = Ref e" "e < length h"
    using 6 ve unfolding h2 r5 by (cases email) (auto simp add: getProp_Inr)
  have r6: "emailViews = Ref (length h)"
    using 6 e unfolding h2 r5 by (simp add: getProp_wr)
  have h3: "h3 = wr (wr (h @ [plainObject ps]) e ''views'' (Ref (length h))) (length h) ''root'' ?R"
    using 7 e unfolding h2 r6 by (simp add: setProp_Inr_wrv)
  have r8: "email3 = Ref e" using 8 1 vc e unfolding h3 by (simp add: getProp_wr)
  have r9: "getProp h config ''i18n'' = Inr i18n" using 9 vc unfolding h3 by (simp add: getProp_wr)
  have h4: "h4 = wr h3 e ''i18n'' i18n" using 10 unfolding r8 by (simp add: setProp_Inr_wrv)
  have r11: "email4 = Ref e" using 11 1 vc e unfolding h4 h3 by (simp add: getProp_wr)
  have r12: "getProp h (Ref e) ''juiceResources'' = Inr juice"
    using 12 e unfolding r11 h4 h3 by (simp add: getProp_wr)
  have r13: "getProp h config ''buildDir'' = Inr buildDir"
    using 13 vc unfolding h4 h3 by (simp add: getProp_wr)
  have "h' = wrv (h4 @ [plainObject [(''relativeTo'', buildDir)]]) juice ''webResources'' (Ref (length h4))"
    and "juice \<noteq> Prim Undefined" "juice \<noteq> Prim Null"
    using 14 by (simp_all add: setProp_Inr_wrv)
  then show ?thesis
    using 1 2 3 r9 r12 r13 e unfolding h4 h3 by simp
qed


lemma closed_append_list:
  assumes "closedStore h"
    "list_all (\<lambda>ob. list_all (\<lambda>p. validRef (length h + length xs) (snd p)) (oprops ob)) xs"
  shows "closedStore (h @ xs)"
  unfolding closedStore_alt
proof (intro allI impI ballI)
  fix i p assume i: "i < length (h @ xs)" and p: "p \<in> set (oprops ((h @ xs) ! i))"
  show "validRef (length (h @ xs)) (snd p)"
  proof (cases "i < length h")
    case True
    with p have "p \<in> set (oprops (h ! i))" by (simp add: nth_append)
    then have "validRef (length h) (snd p)" using assms(1) True by (auto simp add: closedStore_alt)
    then show ?thesis by (rule validRef_mono) simp
  next
    case False
    with i have "xs ! (i - length h) \<in> set xs" by simp
    moreover from p False have "p \<in> set (oprops (xs ! (i - length h)))" by (simp add: nth_append)
    ultimately show ?thesis using assms(2) by (auto simp add: list_all_iff)
  qed
qed

lemma oprops_simps [simp]:
  "oprops (plainObject ps) = ps" "oprops (metaObject c) = []" "oprops (newLogger c) = []"
  "oprops (newI18N c) = []" "oprops (translateFunction c) = []" "oprops (createTransport c) = []"
  "oprops (base64ToS3 c) = []"
  by (simp_all add: plainObject_def metaObject_def newLogger_def newI18N_def translateFunction_def
      createTransport_def base64ToS3_def)

lemma valid_update:
  assumes "list_all (\<lambda>p. validRef n (snd p)) ps" "validRef n v"
  shows "list_all (\<lambda>p. validRef n (snd p)) (AList.update k v ps)"
  using assms set_update_subset [of k v ps] by (auto simp add: list_all_iff)

lemma valid_props_mono:
  "list_all (\<lambda>p. validRef n (snd p)) ps \<Longrightarrow> n \<le> m \<Longrightarrow> list_all (\<lambda>p. validRef m (snd p)) ps"
  by (auto simp add: list_all_iff intro: validRef_mono)

lemma hasThirdPartyProviders_closed:
  assumes "hasThirdPartyProviders h config = Inr h'" "closedStore h"
  shows "closedStore h' \<and> length h' = length h"
  using hasThirdPartyProviders_result [OF assms(1)] assms(2) by (auto intro: closed_wrv)

lemma metaSupport_closed:
  assumes "metaSupport h config = Inr h'" "closedStore h"
  shows "closedStore h' \<and> length h' = Suc (length h)"
proof -
  have "closedStore (h @ [metaObject config])"
    using assms(2) by (rule closed_append_list) simp
  then show ?thesis
    unfolding metaSupport_result [OF assms(1)] by (auto intro: closed_wrv)
qed

lemma translateFilter_closed:
  assumes "translateFilter h config = Inr (logger, h')" "closedStore h"
  shows "closedStore h' \<and> length h' = length h + 4"
proof -
  from translateFilter_result [OF assms] obtain loggerConfig i18nConfig ps filters where
    ps: "ownProps h i18nConfig = Inr ps"
    and h': "h' = wrv (h @ [newLogger loggerConfig,
                          plainObject (AList.update ''logger'' (Ref (length h)) ps),
                          newI18N (Ref (Suc (length h))),
                          translateFunction (Ref (Suc (Suc (length h))))])
                  filters ''translate'' (Ref (Suc (Suc (Suc (length h)))))"
    by blast
  have "list_all (\<lambda>p. validRef (Suc (Suc (Suc (Suc (length h))))) (snd p)) ps"
    using ownProps_valid [OF assms(2) ps] by (rule valid_props_mono) simp
  then have "list_all (\<lambda>p. validRef (Suc (Suc (Suc (Suc (length h))))) (snd p)) (AList.update ''logger'' (Ref (length h)) ps)"
    by (rule valid_update) simp
  then have "closedStore (h @ [newLogger loggerConfig,
                          plainObject (AList.update ''logger'' (Ref (length h)) ps),
                          newI18N (Ref (Suc (length h))),
                          translateFunction (Ref (Suc (Suc (length h))))])"
    by (intro closed_append_list assms(2)) simp
  then show ?thesis unfolding h' by (auto intro: closed_wrv)
qed

lemma globalConfig_closed:
  assumes "globalConfig h config = Inr h'" "closedStore h"
  shows "closedStore h' \<and> length h' = length h"
proof -
  from globalConfig_result [OF assms(1)] obtain views locals where
    v: "getProp h config ''views'' = Inr views" and h': "h' = wrv h locals ''config'' config"
    by blast
  have "validRef (length h) config" using v by (simp add: getProp_source)
  then show ?thesis unfolding h' using assms(2) by (auto intro: closed_wrv)
qed

lemma emailTransport_closed:
  assumes "emailTransport ext logger h config = Inr h'" "closedStore h" "validRef (length h) logger"
  shows "closedStore h' \<and> length h' = length h + 5"
proof -
  from emailTransport_result [OF assms(1,2)] obtain e aws where
    aws: "getProp h config ''aws'' = Inr aws"
    and h': "h' = setInternal
                  (wr (h @ [plainObject [(''user'', Prim (env ext ''POSTMARK_API_TOKEN'')),
                                         (''pass'', Prim (env ext ''POSTMARK_API_TOKEN''))],
                            plainObject [(''service'', Prim (String ''postmark'')),
                                         (''auth'', Ref (length h)), (''logger'', logger)],
                            createTransport (Ref (Suc (length h)))])
                      e ''transport'' (Ref (Suc (Suc (length h))))
                   @ [plainObject [(''cloudFrontDomainName'', Prim (env ext ''AWS_CF_DOMAIN'')),
                                   (''aws'', aws)],
                      base64ToS3 (Ref (Suc (Suc (Suc (length h)))))])
                  (Suc (Suc (length h)))
                  (MailTransport (Ref (Suc (length h)))
                     [(''compile'', Ref (Suc (Suc (Suc (Suc (length h))))))])"
    by blast
  have va: "validRef (length h) aws" using aws assms(2) by (rule getProp_valid [rotated])
  have vl: "validRef (Suc (Suc (Suc (length h)))) logger" using assms(3) by (rule validRef_mono) simp
  have c3: "closedStore (h @ [plainObject [(''user'', Prim (env ext ''POSTMARK_API_TOKEN'')),
                                         (''pass'', Prim (env ext ''POSTMARK_API_TOKEN''))],
                            plainObject [(''service'', Prim (String ''postmark'')),
                                         (''auth'', Ref (length h)), (''logger'', logger)],
                            createTransport (Ref (Suc (length h)))])"
    using vl by (intro closed_append_list assms(2)) simp
  have c4: "closedStore (wr (h @ [plainObject [(''user'', Prim (env ext ''POSTMARK_API_TOKEN'')),
                                         (''pass'', Prim (env ext ''POSTMARK_API_TOKEN''))],
                            plainObject [(''service'', Prim (String ''postmark'')),
                                         (''auth'', Ref (length h)), (''logger'', logger)],
                            createTransport (Ref (Suc (length h)))])
                      e ''transport'' (Ref (Suc (Suc (length h)))))"
    using c3 by (rule closed_wr) simp
  have "validRef (Suc (Suc (Suc (Suc (Suc (length h)))))) aws" using va by (rule validRef_mono) simp
  then show ?thesis
    unfolding h' closed_setInternal by (auto intro!: closed_append_list c4)
qed

lemma pipeline_Inr:
  "pipeline ext h config = Inr h' \<longleftrightarrow>
     (\<exists>h1 h2 logger h3 h4 h5.
        hasThirdPartyProviders h config = Inr h1 \<and> metaSupport h1 config = Inr h2 \<and>
        translateFilter h2 config = Inr (logger, h3) \<and> globalConfig h3 config = Inr h4 \<and>
        emailTransport ext logger h4 config = Inr h5 \<and> emailViews ext h5 config = Inr h')"
  by (auto simp add: pipeline_def derive_def augment_def)


lemma getProp_Ref_mem:
  assumes "getProp h (Ref a) k = Inr (Ref b)"
  shows "a < length h \<and> (k, Ref b) \<in> set (oprops (h ! a))"
proof -
  from assms have a: "a < length h" and l: "lookupProp (oprops (h ! a)) k = Ref b"
    by (auto simp add: getProp_Inr rd_def)
  from l have "map_of (oprops (h ! a)) k = Some (Ref b)"
    by (simp add: lookupProp_def split: option.splits)
  then show ?thesis using a by (auto dest: map_of_SomeD)
qed

lemma sumOptions_None: "None \<in> set xs \<Longrightarrow> sumOptions xs = None"
  by (induction xs rule: sumOptions.induct) (auto split: option.splits)

lemma deepCount_child:
  assumes "getProp h (Ref a) k = Inr (Ref b)" "deepCount fuel h (Ref b) = None"
  shows "deepCount (Suc fuel) h (Ref a) = None"
proof -
  from getProp_Ref_mem [OF assms(1)] have a: "a < length h"
    and m: "(k, Ref b) \<in> set (oprops (h ! a))" by simp_all
  from m have "(\<lambda>p. deepCount fuel h (snd p)) (k, Ref b) \<in>
      (\<lambda>p. deepCount fuel h (snd p)) ` set (oprops (h ! a))"
    by (rule imageI)
  then have "None \<in> set (map (\<lambda>p. deepCount fuel h (snd p)) (oprops (h ! a)))"
    using assms(2) by simp
  then show ?thesis using a by (simp add: sumOptions_None)
qed

lemma deepCount_cycle:
  assumes "getProp h (Ref r) k1 = Inr (Ref a)" "getProp h (Ref a) k2 = Inr (Ref b)"
    "getProp h (Ref b) k3 = Inr (Ref r)"
  shows "deepCount fuel h (Ref r) = None \<and> deepCount fuel h (Ref a) = None \<and>
         deepCount fuel h (Ref b) = None"
proof (induction fuel)
  case 0
  show ?case by simp
next
  case (Suc fuel)
  then have r: "deepCount fuel h (Ref r) = None" and a: "deepCount fuel h (Ref a) = None"
    and b: "deepCount fuel h (Ref b) = None" by simp_all
  show ?case
    using deepCount_child [OF assms(1) a] deepCount_child [OF assms(2) b]
      deepCount_child [OF assms(3) r] by blast
qed

lemma ownProps_lookup:
  "ownProps h (Ref a) = Inr ps \<Longrightarrow> getProp h (Ref a) k = Inr (lookupProp ps k)"
  by (auto simp add: getProp.simps ownProps.simps split: if_splits)

lemma getProp_append_new:
  "getProp (h @ ob # xs) (Ref (length h)) k = Inr (lookupProp (oprops ob) k)"
  by (simp add: getProp.simps nth_append)

lemma wr_append_old: "a < length h \<Longrightarrow> wr (h @ xs) a k v = wr h a k v @ xs"
  by (simp add: wr_def nth_append list_update_append)

lemma wrv_append_old: "validRef (length h) t \<Longrightarrow> wrv (h @ xs) t k v = wrv h t k v @ xs"
  by (cases t) (simp_all add: wr_append_old)

lemma wr_append_new: "a = length h + i \<Longrightarrow> wr (h @ xs) a k v = h @ wr xs i k v"
  by (simp add: wr_def nth_append list_update_append)

lemma setInternal_append_new:
  "a = length h + i \<Longrightarrow> setInternal (h @ xs) a I = h @ setInternal xs i I"
  by (simp add: setInternal_def nth_append list_update_append)

lemma getProp_old_views:
  "getProp (wrv h t ''translate'' v) c ''views'' = getProp h c ''views''"
  by (simp add: getProp_wrv)

lemma augment_Inr:
  "augment ext h config = Inr h' \<longleftrightarrow>
     (\<exists>logger h3 h4 h5.
        translateFilter h config = Inr (logger, h3) \<and> globalConfig h3 config = Inr h4 \<and>
        emailTransport ext logger h4 config = Inr h5 \<and> emailViews ext h5 config = Inr h')"
  by (auto simp add: augment_def)

lemma augment_normal_form:
  assumes "augment ext h config = Inr h'" "closedStore h"
  shows "\<exists>root va la filters loggerConfig i18nConfig ps e aws ps' juice buildDir.
     config = Ref root \<and> root < length h \<and>
     getProp h config ''views'' = Inr (Ref va) \<and> va < length h \<and>
     getProp h (Ref va) ''locals'' = Inr (Ref la) \<and> la < length h \<and>
     getProp h (Ref la) ''filters'' = Inr filters \<and>
     filters \<noteq> Prim Undefined \<and> filters \<noteq> Prim Null \<and> validRef (length h) filters \<and>
     getProp h config ''logger'' = Inr loggerConfig \<and>
     getProp h config ''i18n'' = Inr i18nConfig \<and>
     ownProps h i18nConfig = Inr ps \<and>
     getProp h config ''email'' = Inr (Ref e) \<and> e < length h \<and>
     getProp h config ''aws'' = Inr aws \<and>
     getProp h (Ref e) ''juiceResources'' = Inr juice \<and>
     juice \<noteq> Prim Undefined \<and> juice \<noteq> Prim Null \<and> validRef (length h) juice \<and>
     getProp h config ''buildDir'' = Inr buildDir \<and>
     ownProps (wr (wr (wrv h filters ''translate'' (Ref (length h + 3))) la ''config'' config)
                 e ''transport'' (Ref (length h + 6))) (Ref va) = Inr ps' \<and>
     h' = wrv (wr (wr (wr (wr (wrv h filters ''translate'' (Ref (length h + 3)))
                            la ''config'' config)
                        e ''transport'' (Ref (length h + 6)))
                    e ''views'' (Ref (length h + 9)))
                e ''i18n'' i18nConfig)
            juice ''webResources'' (Ref (length h + 10))
          @ [newLogger loggerConfig,
             plainObject (AList.update ''logger'' (Ref (length h)) ps),
             newI18N (Ref (length h + 1)),
             translateFunction (Ref (length h + 2)),
             plainObject [(''user'', Prim (env ext ''POSTMARK_API_TOKEN'')),
                          (''pass'', Prim (env ext ''POSTMARK_API_TOKEN''))],
             plainObject [(''service'', Prim (String ''postmark'')),
                          (''auth'', Ref (length h + 4)), (''logger'', Ref (length h))],
             (createTransport (Ref (length h + 5)))
               \<lparr>ointernal := MailTransport (Ref (length h + 5)) [(''compile'', Ref (length h + 8))]\<rparr>,
             plainObject [(''cloudFrontDomainName'', Prim (env ext ''AWS_CF_DOMAIN'')),
                          (''aws'', aws)],
             base64ToS3 (Ref (length h + 7)),
             plainObject (AList.update ''root''
                (Prim (String (pathJoin ext [dirname ext, ''..'', ''emails'']))) ps'),
             plainObject [(''relativeTo'', buildDir)]]"
proof -
  let ?n = "length h"
  from assms(1) obtain logger h3 h4 h5 where
    s3: "translateFilter h config = Inr (logger, h3)" and s4: "globalConfig h3 config = Inr h4"
    and s5: "emailTransport ext logger h4 config = Inr h5" and s6: "emailViews ext h5 config = Inr h'"
    by (auto simp add: augment_Inr)
  have c3: "closedStore h3" and l3: "length h3 = ?n + 4"
    using translateFilter_closed [OF s3 assms(2)] by simp_all
  have c4: "closedStore h4" and l4: "length h4 = ?n + 4"
    using globalConfig_closed [OF s4 c3] l3 by simp_all
  from translateFilter_result [OF s3 assms(2)] obtain loggerConfig i18nConfig ps views locals filters
    where t1: "getProp h config ''logger'' = Inr loggerConfig"
    and t2: "getProp h config ''i18n'' = Inr i18nConfig"
    and t3: "ownProps h i18nConfig = Inr ps"
    and t4: "getProp h config ''views'' = Inr views"
    and t5: "getProp h views ''locals'' = Inr locals"
    and t6: "getProp h locals ''filters'' = Inr filters"
    and t7: "filters \<noteq> Prim Undefined" "filters \<noteq> Prim Null"
    and lg: "logger = Ref ?n"
    and h3: "h3 = wrv (h @ [newLogger loggerConfig,
                          plainObject (AList.update ''logger'' (Ref ?n) ps),
                          newI18N (Ref (Suc ?n)),
                          translateFunction (Ref (Suc (Suc ?n)))])
                  filters ''translate'' (Ref (Suc (Suc (Suc ?n))))"
    by blast
  have sucs: "Suc ?n = ?n + 1" "Suc (?n + 1) = ?n + 2" "Suc (?n + 2) = ?n + 3"
    "Suc (?n + 3) = ?n + 4" "Suc (?n + 4) = ?n + 5" "Suc (?n + 5) = ?n + 6"
    "Suc (?n + 6) = ?n + 7" "Suc (?n + 7) = ?n + 8" "Suc (?n + 8) = ?n + 9"
    "Suc (?n + 9) = ?n + 10"
    by simp_all
  let ?N4 = "[newLogger loggerConfig, plainObject (AList.update ''logger'' (Ref ?n) ps),
              newI18N (Ref (?n + 1)), translateFunction (Ref (?n + 2))]"
  from t6 t7 obtain la where la: "locals = Ref la" "la < ?n" by (auto simp add: getProp_Inr)
  from t5 la obtain va where va: "views = Ref va" "va < ?n" by (auto simp add: getProp_Inr)
  from t4 va obtain root where root: "config = Ref root" "root < ?n" by (auto simp add: getProp_Inr)
  have vf: "validRef ?n filters" using t6 assms(2) by (rule getProp_valid [rotated])
  let ?H3 = "wrv h filters ''translate'' (Ref (?n + 3))"
  have h3': "h3 = ?H3 @ ?N4" unfolding h3 sucs using vf by (rule wrv_append_old)
  have g3: "getProp h3 config ''views'' = Inr (Ref va)" "getProp h3 (Ref va) ''locals'' = Inr (Ref la)"
    using t4 t5 la va root unfolding h3' by (simp_all add: getProp_wrv)
  from globalConfig_result [OF s4] g3 have h4: "h4 = wr h3 la ''config'' config" by auto
  let ?H4 = "wr ?H3 la ''config'' config"
  have h4': "h4 = ?H4 @ ?N4" unfolding h4 h3' using la by (simp add: wr_append_old)
  have c5: "closedStore h5" and l5: "length h5 = ?n + 9"
    using emailTransport_closed [OF s5 c4] lg l4 by simp_all
  have vr: "validRef ?n config" using root by simp
  from emailTransport_result [OF s5 c4] obtain e aws where
    e1: "getProp h4 config ''email'' = Inr (Ref e)" and e2: "getProp h4 config ''aws'' = Inr aws"
    and h5: "h5 = setInternal
                  (wr (h4 @ [plainObject [(''user'', Prim (env ext ''POSTMARK_API_TOKEN'')),
                                         (''pass'', Prim (env ext ''POSTMARK_API_TOKEN''))],
                            plainObject [(''service'', Prim (String ''postmark'')),
                                         (''auth'', Ref (length h4)), (''logger'', logger)],
                            createTransport (Ref (Suc (length h4)))])
                      e ''transport'' (Ref (Suc (Suc (length h4))))
                   @ [plainObject [(''cloudFrontDomainName'', Prim (env ext ''AWS_CF_DOMAIN'')),
                                   (''aws'', aws)],
                      base64ToS3 (Ref (Suc (Suc (Suc (length h4)))))])
                  (Suc (Suc (length h4)))
                  (MailTransport (Ref (Suc (length h4)))
                     [(''compile'', Ref (Suc (Suc (Suc (Suc (length h4))))))])"
    by blast
  have e1': "getProp h config ''email'' = Inr (Ref e)" and e2': "getProp h config ''aws'' = Inr aws"
    using e1 e2 vr unfolding h4' by (simp_all add: getProp_wr getProp_wrv)
  have e: "e < ?n" using e1' assms(2) getProp_valid by fastforce
  let ?A = "plainObject [(''user'', Prim (env ext ''POSTMARK_API_TOKEN'')),
                         (''pass'', Prim (env ext ''POSTMARK_API_TOKEN''))]"
  let ?O2 = "plainObject [(''service'', Prim (String ''postmark'')),
                          (''auth'', Ref (?n + 4)), (''logger'', Ref ?n)]"
  let ?T = "createTransport (Ref (?n + 5))"
  let ?MT = "MailTransport (Ref (?n + 5)) [(''compile'', Ref (?n + 8))]"
  let ?PO = "plainObject [(''cloudFrontDomainName'', Prim (env ext ''AWS_CF_DOMAIN'')), (''aws'', aws)]"
  let ?P = "base64ToS3 (Ref (?n + 7))"
  let ?H5 = "wr ?H4 e ''transport'' (Ref (?n + 6))"
  have h5a: "h5 = setInternal (wr (h4 @ [?A, ?O2, ?T]) e ''transport'' (Ref (?n + 6)) @ [?PO, ?P])
                    (?n + 6) ?MT"
    using h5 unfolding l4 lg sucs .
  have "wr (h4 @ [?A, ?O2, ?T]) e ''transport'' (Ref (?n + 6)) @ [?PO, ?P] =
        ?H5 @ (?N4 @ [?A, ?O2, ?T, ?PO, ?P])"
    unfolding h4' using e by (simp add: wr_append_old)
  then have h5b: "h5 = setInternal (?H5 @ (?N4 @ [?A, ?O2, ?T, ?PO, ?P])) (?n + 6) ?MT"
    using h5a by simp
  have h5': "h5 = ?H5 @ (?N4 @ [?A, ?O2, ?T\<lparr>ointernal := ?MT\<rparr>, ?PO, ?P])"
    unfolding h5b by (subst setInternal_append_new [where i = 6]) (simp_all add: setInternal_def)
  let ?N9 = "?N4 @ [?A, ?O2, ?T\<lparr>ointernal := ?MT\<rparr>, ?PO, ?P]"
  from emailViews_result [OF s6 c5] obtain e' views' ps' i18n' juice buildDir where
    v1: "getProp h5 config ''email'' = Inr (Ref e')"
    and v2: "getProp h5 config ''views'' = Inr views'" and v3: "ownProps h5 views' = Inr ps'"
    and v4: "getProp h5 config ''i18n'' = Inr i18n'"
    and v5: "getProp h5 (Ref e') ''juiceResources'' = Inr juice"
    and v6: "juice \<noteq> Prim Undefined" "juice \<noteq> Prim Null"
    and v7: "getProp h5 config ''buildDir'' = Inr buildDir"
    and h': "h' = wrv (wr (wr (wr (h5 @ [plainObject ps']) e' ''views'' (Ref (length h5)))
                            (length h5) ''root''
                            (Prim (String (pathJoin ext [dirname ext, ''..'', ''emails'']))))
                        e' ''i18n'' i18n'
                     @ [plainObject [(''relativeTo'', buildDir)]])
                  juice ''webResources'' (Ref (Suc (length h5)))"
    by blast
  have w1: "e' = e" using v1 e1' vr unfolding h5' by (simp add: getProp_wr getProp_wrv)
  have w2: "views' = Ref va" using v2 t4 va vr unfolding h5' by (simp add: getProp_wr getProp_wrv)
  have w3: "ownProps ?H5 (Ref va) = Inr ps'" using v3 va unfolding w2 h5' by simp
  have w4: "i18n' = i18nConfig" using v4 t2 vr unfolding h5' by (simp add: getProp_wr getProp_wrv)
  have w5: "getProp h (Ref e) ''juiceResources'' = Inr juice"
    using v5 e unfolding w1 h5' by (simp add: getProp_wr getProp_wrv)
  have w7: "getProp h config ''buildDir'' = Inr buildDir"
    using v7 vr unfolding h5' by (simp add: getProp_wr getProp_wrv)
  have vj: "validRef ?n juice" using w5 assms(2) by (rule getProp_valid [rotated])
  let ?R = "Prim (String (pathJoin ext [dirname ext, ''..'', ''emails'']))"
  let ?W = "plainObject [(''relativeTo'', buildDir)]"
  let ?H6 = "wr (wr ?H5 e ''views'' (Ref (?n + 9))) e ''i18n'' i18nConfig"
  have x1: "wr (h5 @ [plainObject ps']) e ''views'' (Ref (?n + 9)) =
            wr ?H5 e ''views'' (Ref (?n + 9)) @ (?N9 @ [plainObject ps'])"
    unfolding h5' using e by (simp add: wr_append_old)
  have x2: "wr (wr ?H5 e ''views'' (Ref (?n + 9)) @ (?N9 @ [plainObject ps'])) (?n + 9) ''root'' ?R =
            wr ?H5 e ''views'' (Ref (?n + 9)) @ (?N9 @ [plainObject (AList.update ''root'' ?R ps')])"
    by (subst wr_append_new [where i = 9]) (simp_all add: wr_def plainObject_def)
  have x3: "wr (wr ?H5 e ''views'' (Ref (?n + 9)) @ (?N9 @ [plainObject (AList.update ''root'' ?R ps')]))
              e ''i18n'' i18nConfig =
            ?H6 @ (?N9 @ [plainObject (AList.update ''root'' ?R ps')])"
    using e by (simp add: wr_append_old)
  have x4: "wrv (?H6 @ (?N9 @ [plainObject (AList.update ''root'' ?R ps')]) @ [?W])
              juice ''webResources'' (Ref (?n + 10)) =
            wrv ?H6 juice ''webResources'' (Ref (?n + 10))
              @ (?N9 @ [plainObject (AList.update ''root'' ?R ps'), ?W])"
    using vj by (simp add: wrv_append_old)
  have final: "h' = wrv ?H6 juice ''webResources'' (Ref (?n + 10))
              @ (?N9 @ [plainObject (AList.update ''root'' ?R ps'), ?W])"
    unfolding h' l5 sucs w1 w4 x1 x2 x3 using x4 by simp
  show ?thesis
    using root t4 [unfolded va] va t5 [unfolded va la] la t6 [unfolded la] t7 vf t1 t2 t3 e1' e e2'
      w5 v6 vj w7 w3 final
    by simp
qed

section \<open>The effect of the augmentation\<close>

lemma getProp_append_plus:
  "getProp (h @ xs) (Ref (length h + i)) k =
     (if i < length xs then Inr (lookupProp (oprops (xs ! i)) k) else Inl DanglingReference)"
  by (simp add: getProp.simps nth_append)

lemma getProp_Ref: "a < length h \<Longrightarrow> getProp h (Ref a) k = Inr (lookupProp (oprops (h ! a)) k)"
  by (simp add: getProp.simps)

lemma augment_effect:
  assumes "augment ext h config = Inr h'" "closedStore h"
  obtains root va la filters loggerConfig i18nConfig ps e aws ps' juice buildDir where
    "config = Ref root"
    "root < length h"
    "getProp h config ''views'' = Inr (Ref va)"
    "va < length h"
    "getProp h (Ref va) ''locals'' = Inr (Ref la)"
    "la < length h"
    "getProp h (Ref la) ''filters'' = Inr filters"
    "filters \<noteq> Prim Undefined"
    "filters \<noteq> Prim Null"
    "validRef (length h) filters"
    "getProp h config ''logger'' = Inr loggerConfig"
    "getProp h config ''i18n'' = Inr i18nConfig"
    "ownProps h i18nConfig = Inr ps"
    "getProp h config ''email'' = Inr (Ref e)"
    "e < length h"
    "getProp h config ''aws'' = Inr aws"
    "getProp h (Ref e) ''juiceResources'' = Inr juice"
    "juice \<noteq> Prim Undefined"
    "juice \<noteq> Prim Null"
    "validRef (length h) juice"
    "getProp h config ''buildDir'' = Inr buildDir"
    "(\<forall>k. k \<noteq> ''root'' \<longrightarrow>
        lookupProp ps' k = (if k = ''translate'' \<and> filters = Ref va then Ref (length h + 3)
                            else if k = ''config'' \<and> va = la then config
                            else if k = ''transport'' \<and> va = e then Ref (length h + 6)
                            else lookupProp (oprops (h ! va)) k))"
    "length h' = length h + 11"
    "(\<forall>a k. a < length h \<longrightarrow>
        getProp h' (Ref a) k =
          (if k = ''webResources'' \<and> juice = Ref a then Inr (Ref (length h + 10))
           else if k = ''i18n'' \<and> a = e then Inr i18nConfig
           else if k = ''views'' \<and> a = e then Inr (Ref (length h + 9))
           else if k = ''transport'' \<and> a = e then Inr (Ref (length h + 6))
           else if k = ''config'' \<and> a = la then Inr config
           else if k = ''translate'' \<and> filters = Ref a then Inr (Ref (length h + 3))
           else getProp h (Ref a) k))"
    "(\<forall>a. a < length h \<longrightarrow> ointernal (h' ! a) = ointernal (h ! a) \<and> okind (h' ! a) = okind (h ! a))"
    "h' ! (length h) = newLogger loggerConfig"
    "h' ! (length h + 1) = plainObject (AList.update ''logger'' (Ref (length h)) ps)"
    "h' ! (length h + 2) = newI18N (Ref (length h + 1))"
    "h' ! (length h + 3) = translateFunction (Ref (length h + 2))"
    "h' ! (length h + 4) = plainObject [(''user'', Prim (env ext ''POSTMARK_API_TOKEN'')),
                                        (''pass'', Prim (env ext ''POSTMARK_API_TOKEN''))]"
    "h' ! (length h + 5) = plainObject [(''service'', Prim (String ''postmark'')),
                                        (''auth'', Ref (length h + 4)), (''logger'', Ref (length h))]"
    "h' ! (length h + 6) = (createTransport (Ref (length h + 5)))
               \<lparr>ointernal := MailTransport (Ref (length h + 5)) [(''compile'', Ref (length h + 8))]\<rparr>"
    "h' ! (length h + 7) = plainObject [(''cloudFrontDomainName'', Prim (env ext ''AWS_CF_DOMAIN'')),
                                        (''aws'', aws)]"
    "h' ! (length h + 8) = base64ToS3 (Ref (length h + 7))"
    "h' ! (length h + 9) = plainObject (AList.update ''root''
                (Prim (String (pathJoin ext [dirname ext, ''..'', ''emails'']))) ps')"
    "h' ! (length h + 10) = plainObject [(''relativeTo'', buildDir)]"
proof -
  from augment_normal_form [OF assms] obtain root va la filters loggerConfig i18nConfig ps e aws ps'
    juice buildDir where
    f: "config = Ref root" "root < length h"
     "getProp h config ''views'' = Inr (Ref va)" "va < length h"
     "getProp h (Ref va) ''locals'' = Inr (Ref la)" "la < length h"
     "getProp h (Ref la) ''filters'' = Inr filters"
     "filters \<noteq> Prim Undefined" "filters \<noteq> Prim Null" "validRef (length h) filters"
     "getProp h config ''logger'' = Inr loggerConfig"
     "getProp h config ''i18n'' = Inr i18nConfig"
     "ownProps h i18nConfig = Inr ps"
     "getProp h config ''email'' = Inr (Ref e)" "e < length h"
     "getProp h config ''aws'' = Inr aws"
     "getProp h (Ref e) ''juiceResources'' = Inr juice"
     "juice \<noteq> Prim Undefined" "juice \<noteq> Prim Null" "validRef (length h) juice"
     "getProp h config ''buildDir'' = Inr buildDir"
    and ps': "ownProps (wr (wr (wrv h filters ''translate'' (Ref (length h + 3))) la ''config'' config)
                 e ''transport'' (Ref (length h + 6))) (Ref va) = Inr ps'"
    and h': "h' = wrv (wr (wr (wr (wr (wrv h filters ''translate'' (Ref (length h + 3)))
                            la ''config'' config)
                        e ''transport'' (Ref (length h + 6)))
                    e ''views'' (Ref (length h + 9)))
                e ''i18n'' i18nConfig)
            juice ''webResources'' (Ref (length h + 10))
          @ [newLogger loggerConfig,
             plainObject (AList.update ''logger'' (Ref (length h)) ps),
             newI18N (Ref (length h + 1)),
             translateFunction (Ref (length h + 2)),
             plainObject [(''user'', Prim (env ext ''POSTMARK_API_TOKEN'')),
                          (''pass'', Prim (env ext ''POSTMARK_API_TOKEN''))],
             plainObject [(''service'', Prim (String ''postmark'')),
                          (''auth'', Ref (length h + 4)), (''logger'', Ref (length h))],
             (createTransport (Ref (length h + 5)))
               \<lparr>ointernal := MailTransport (Ref (length h + 5)) [(''compile'', Ref (length h + 8))]\<rparr>,
             plainObject [(''cloudFrontDomainName'', Prim (env ext ''AWS_CF_DOMAIN'')),
                          (''aws'', aws)],
             base64ToS3 (Ref (length h + 7)),
             plainObject (AList.update ''root''
                (Prim (String (pathJoin ext [dirname ext, ''..'', ''emails'']))) ps'),
             plainObject [(''relativeTo'', buildDir)]]"
    by blast
  let ?OLD = "wrv (wr (wr (wr (wr (wrv h filters ''translate'' (Ref (length h + 3)))
                            la ''config'' config)
                        e ''transport'' (Ref (length h + 6)))
                    e ''views'' (Ref (length h + 9)))
                e ''i18n'' i18nConfig)
            juice ''webResources'' (Ref (length h + 10))"
  have lo: "length ?OLD = length h" by simp
  have A: "\<forall>k. k \<noteq> ''root'' \<longrightarrow>
        lookupProp ps' k = (if k = ''translate'' \<and> filters = Ref va then Ref (length h + 3)
                            else if k = ''config'' \<and> va = la then config
                            else if k = ''transport'' \<and> va = e then Ref (length h + 6)
                            else lookupProp (oprops (h ! va)) k)"
  proof (intro allI impI)
    fix k :: string
    have "getProp (wr (wr (wrv h filters ''translate'' (Ref (length h + 3))) la ''config'' config)
                 e ''transport'' (Ref (length h + 6))) (Ref va) k = Inr (lookupProp ps' k)"
      using ps' by (rule ownProps_lookup)
    then show "lookupProp ps' k = (if k = ''translate'' \<and> filters = Ref va then Ref (length h + 3)
                            else if k = ''config'' \<and> va = la then config
                            else if k = ''transport'' \<and> va = e then Ref (length h + 6)
                            else lookupProp (oprops (h ! va)) k)"
      using f(4,6,15) by (auto simp add: getProp_wr getProp_wrv getProp_Ref)
  qed
  have B: "\<forall>a k. a < length h \<longrightarrow>
        getProp h' (Ref a) k =
          (if k = ''webResources'' \<and> juice = Ref a then Inr (Ref (length h + 10))
           else if k = ''i18n'' \<and> a = e then Inr i18nConfig
           else if k = ''views'' \<and> a = e then Inr (Ref (length h + 9))
           else if k = ''transport'' \<and> a = e then Inr (Ref (length h + 6))
           else if k = ''config'' \<and> a = la then Inr config
           else if k = ''translate'' \<and> filters = Ref a then Inr (Ref (length h + 3))
           else getProp h (Ref a) k)"
  proof (intro allI impI)
    fix a k assume a: "a < length h"
    have "getProp h' (Ref a) k = getProp ?OLD (Ref a) k"
      unfolding h' using a by (intro getProp_append_list) simp
    also have "\<dots> = (if k = ''webResources'' \<and> juice = Ref a then Inr (Ref (length h + 10))
           else if k = ''i18n'' \<and> a = e then Inr i18nConfig
           else if k = ''views'' \<and> a = e then Inr (Ref (length h + 9))
           else if k = ''transport'' \<and> a = e then Inr (Ref (length h + 6))
           else if k = ''config'' \<and> a = la then Inr config
           else if k = ''translate'' \<and> filters = Ref a then Inr (Ref (length h + 3))
           else getProp h (Ref a) k)"
      using a f(2,4,6,15) by (auto simp add: getProp_wr getProp_wrv)
    finally show "getProp h' (Ref a) k =
          (if k = ''webResources'' \<and> juice = Ref a then Inr (Ref (length h + 10))
           else if k = ''i18n'' \<and> a = e then Inr i18nConfig
           else if k = ''views'' \<and> a = e then Inr (Ref (length h + 9))
           else if k = ''transport'' \<and> a = e then Inr (Ref (length h + 6))
           else if k = ''config'' \<and> a = la then Inr config
           else if k = ''translate'' \<and> filters = Ref a then Inr (Ref (length h + 3))
           else getProp h (Ref a) k)" .
  qed
  have C: "\<forall>a. a < length h \<longrightarrow> ointernal (h' ! a) = ointernal (h ! a) \<and> okind (h' ! a) = okind (h ! a)"
    unfolding h' by (simp add: nth_append)
  have D: "length h' = length h + 11" unfolding h' by simp
  have N: "h' ! (length ?OLD + i) = 
          [newLogger loggerConfig,
             plainObject (AList.update ''logger'' (Ref (length h)) ps),
             newI18N (Ref (length h + 1)),
             translateFunction (Ref (length h + 2)),
             plainObject [(''user'', Prim (env ext ''POSTMARK_API_TOKEN'')),
                          (''pass'', Prim (env ext ''POSTMARK_API_TOKEN''))],
             plainObject [(''service'', Prim (String ''postmark'')),
                          (''auth'', Ref (length h + 4)), (''logger'', Ref (length h))],
             (createTransport (Ref (length h + 5)))
               \<lparr>ointernal := MailTransport (Ref (length h + 5)) [(''compile'', Ref (length h + 8))]\<rparr>,
             plainObject [(''cloudFrontDomainName'', Prim (env ext ''AWS_CF_DOMAIN'')),
                          (''aws'', aws)],
             base64ToS3 (Ref (length h + 7)),
             plainObject (AList.update ''root''
                (Prim (String (pathJoin ext [dirname ext, ''..'', ''emails'']))) ps'),
             plainObject [(''relativeTo'', buildDir)]] ! i" for i
    unfolding h' by (rule nth_append_length_plus)
  have n0: "h' ! (length h) = newLogger loggerConfig"
    using N [of 0] unfolding lo by simp
  have n1: "h' ! (length h + 1) = plainObject (AList.update ''logger'' (Ref (length h)) ps)"
    using N [of 1] unfolding lo by simp
  have n2: "h' ! (length h + 2) = newI18N (Ref (length h + 1))"
    using N [of 2] unfolding lo by simp
  have n3: "h' ! (length h + 3) = translateFunction (Ref (length h + 2))"
    using N [of 3] unfolding lo by simp
  have n4: "h' ! (length h + 4) = plainObject [(''user'', Prim (env ext ''POSTMARK_API_TOKEN'')),
                                        (''pass'', Prim (env ext ''POSTMARK_API_TOKEN''))]"
    using N [of 4] unfolding lo by simp
  have n5: "h' ! (length h + 5) = plainObject [(''service'', Prim (String ''postmark'')),
                                        (''auth'', Ref (length h + 4)), (''logger'', Ref (length h))]"
    using N [of 5] unfolding lo by simp
  have n6: "h' ! (length h + 6) = (createTransport (Ref (length h + 5)))
               \<lparr>ointernal := MailTransport (Ref (length h + 5)) [(''compile'', Ref (length h + 8))]\<rparr>"
    using N [of 6] unfolding lo by simp
  have n7: "h' ! (length h + 7) = plainObject [(''cloudFrontDomainName'', Prim (env ext ''AWS_CF_DOMAIN'')),
                                        (''aws'', aws)]"
    using N [of 7] unfolding lo by simp
  have n8: "h' ! (length h + 8) = base64ToS3 (Ref (length h + 7))"
    using N [of 8] unfolding lo by simp
  have n9: "h' ! (length h + 9) = plainObject (AList.update ''root''
                (Prim (String (pathJoin ext [dirname ext, ''..'', ''emails'']))) ps')"
    using N [of 9] unfolding lo by simp
  have n10: "h' ! (length h + 10) = plainObject [(''relativeTo'', buildDir)]"
    using N [of 10] unfolding lo by simp
  show thesis
    by (rule that) (rule f A B C D n0 n1 n2 n3 n4 n5 n6 n7 n8 n9 n10)+
qed

section \<open>The effect of the pipeline\<close>

lemma derive_Inr:
  "derive h config = Inr h2 \<longleftrightarrow>
     (\<exists>h1. hasThirdPartyProviders h config = Inr h1 \<and> metaSupport h1 config = Inr h2)"
  by (auto simp add: derive_def)

lemma derive_result:
  assumes "derive h config = Inr h2" "closedStore h"
  obtains auth providers b where
    "getProp h config ''auth'' = Inr auth" "getProp h auth ''providers'' = Inr providers"
    "some h providers = Inr b" "closedStore h2" "length h2 = length h + 1"
    "\<forall>a k. a < length h \<longrightarrow>
              getProp h2 (Ref a) k =
                (if k = ''meta'' \<and> config = Ref a then Inr (Ref (length h))
                 else if k = ''hasThirdPartyProviders'' \<and> auth = Ref a then Inr (Prim (Boolean b))
                 else getProp h (Ref a) k)"
    "\<forall>a. a < length h \<longrightarrow> ointernal (h2 ! a) = ointernal (h ! a) \<and> okind (h2 ! a) = okind (h ! a)"
    "h2 ! (length h) = metaObject config"
proof -
  from assms(1) obtain h1 where s1: "hasThirdPartyProviders h config = Inr h1"
    and s2: "metaSupport h1 config = Inr h2" by (auto simp add: derive_Inr)
  from hasThirdPartyProviders_result [OF s1] obtain auth providers b where
    r: "getProp h config ''auth'' = Inr auth" "getProp h auth ''providers'' = Inr providers"
      "some h providers = Inr b"
    and h1: "h1 = wrv h auth ''hasThirdPartyProviders'' (Prim (Boolean b))" by blast
  have c1: "closedStore h1" "length h1 = length h"
    using hasThirdPartyProviders_closed [OF s1 assms(2)] by simp_all
  have c2: "closedStore h2" "length h2 = length h + 1"
    using metaSupport_closed [OF s2 c1(1)] c1(2) by simp_all
  have vc: "validRef (length h) config" using r(1) by (simp add: getProp_source)
  have h2: "h2 = wrv h1 config ''meta'' (Ref (length h)) @ [metaObject config]"
    using metaSupport_result [OF s2] vc c1(2) by (simp add: wrv_append_old)
  have va: "validRef (length h) auth" using r(1) assms(2) by (rule getProp_valid [rotated])
  have A: "\<forall>a k. a < length h \<longrightarrow>
              getProp h2 (Ref a) k =
                (if k = ''meta'' \<and> config = Ref a then Inr (Ref (length h))
                 else if k = ''hasThirdPartyProviders'' \<and> auth = Ref a then Inr (Prim (Boolean b))
                 else getProp h (Ref a) k)"
    unfolding h2 h1 using vc va by (auto simp add: getProp_wrv getProp_wr)
  have B: "\<forall>a. a < length h \<longrightarrow> ointernal (h2 ! a) = ointernal (h ! a) \<and> okind (h2 ! a) = okind (h ! a)"
    unfolding h2 h1 by (simp add: nth_append)
  have C: "h2 ! (length h) = metaObject config"
    unfolding h2 h1 by (simp add: nth_append)
  show thesis by (rule that) (rule r c2 A B C)+
qed

lemma pipeline_split:
  "pipeline ext h config = Inr h' \<longleftrightarrow>
     (\<exists>h2. derive h config = Inr h2 \<and> augment ext h2 config = Inr h')"
  by (auto simp add: pipeline_def)

lemma some_plain:
  assumes "p < length h" "okind (h ! p) = PlainObject"
  shows "some h (Ref p) =
     Inr (if validLength (lookupProp (oprops (h ! p)) ''length'')
          then (\<exists>i < lengthValue (lookupProp (oprops (h ! p)) ''length'').
                  hTruthy (lookupProp (oprops (h ! p)) (string_of_nat i)))
          else (\<exists>kv \<in> set (oprops (h ! p)). hTruthy (snd kv)))"
  using assms by (auto simp add: list_ex_iff Let_def)

lemma hasThirdPartyProviders_flag:
  assumes "pipeline ext h config = Inr h'" "closedStore h"
  shows "\<exists>auth providers b.
           getProp h config ''auth'' = Inr auth \<and> getProp h auth ''providers'' = Inr providers \<and>
           some h providers = Inr b \<and>
           (\<forall>au. auth = Ref au \<longrightarrow>
              getPath h' config [''auth'', ''hasThirdPartyProviders''] = Inr (Prim (Boolean b)))"
proof -
  from assms(1) obtain h2 where d: "derive h config = Inr h2" and a: "augment ext h2 config = Inr h'"
    by (auto simp add: pipeline_split)
  obtain auth providers b where
    r: "getProp h config ''auth'' = Inr auth" "getProp h auth ''providers'' = Inr providers"
      "some h providers = Inr b"
    and c2: "closedStore h2" and l2: "length h2 = length h + 1"
    and A: "\<forall>a k. a < length h \<longrightarrow>
              getProp h2 (Ref a) k =
                (if k = ''meta'' \<and> config = Ref a then Inr (Ref (length h))
                 else if k = ''hasThirdPartyProviders'' \<and> auth = Ref a then Inr (Prim (Boolean b))
                 else getProp h (Ref a) k)"
    by (rule derive_result [OF d assms(2)]) (rule that; assumption)
  obtain la e filters juice i18nConfig where
    B: "\<forall>a k. a < length h2 \<longrightarrow>
        getProp h' (Ref a) k =
          (if k = ''webResources'' \<and> juice = Ref a then Inr (Ref (length h2 + 10))
           else if k = ''i18n'' \<and> a = e then Inr i18nConfig
           else if k = ''views'' \<and> a = e then Inr (Ref (length h2 + 9))
           else if k = ''transport'' \<and> a = e then Inr (Ref (length h2 + 6))
           else if k = ''config'' \<and> a = la then Inr config
           else if k = ''translate'' \<and> filters = Ref a then Inr (Ref (length h2 + 3))
           else getProp h2 (Ref a) k)"
    by (rule augment_effect [OF a c2]) (rule that; assumption)
  have "getPath h' config [''auth'', ''hasThirdPartyProviders''] = Inr (Prim (Boolean b))"
    if au: "auth = Ref au" for au
  proof -
    have v: "au < length h" using r(1) assms(2) au getProp_valid by fastforce
    from r(1) au obtain root where root: "config = Ref root" "root < length h"
      by (auto simp add: getProp_Inr)
    have "getProp h' (Ref root) ''auth'' = Inr (Ref au)"
      using B [rule_format, of root "''auth''"] A [rule_format, of root "''auth''"] root r(1) au l2
      by simp
    moreover have "getProp h' (Ref au) ''hasThirdPartyProviders'' = Inr (Prim (Boolean b))"
      using B [rule_format, of au "''hasThirdPartyProviders''"]
        A [rule_format, of au "''hasThirdPartyProviders''"] au v l2 by simp
    ultimately show ?thesis using root by simp
  qed
  with r show ?thesis by blast
qed


lemma lookupProp_ownProps:
  assumes "ownProps h (Ref a) = Inr ps"
  shows "Inr (lookupProp ps k) = getProp h (Ref a) k"
  using ownProps_lookup [OF assms, of k] by simp

lemma pipeline_effect:
  assumes "pipeline ext h config = Inr h'" "closedStore h"
  obtains root auth providers b va la filters loggerConfig i18nConfig ps e aws ps' juice buildDir
  where
    "config = Ref root" "root < length h"
    "getProp h config ''auth'' = Inr auth" "getProp h auth ''providers'' = Inr providers"
    "some h providers = Inr b"
    "getProp h config ''views'' = Inr (Ref va)" "va < length h"
    "getProp h (Ref va) ''locals'' = Inr (Ref la)" "la < length h"
    "getProp h (Ref la) ''filters'' = Inr filters"
    "filters \<noteq> Prim Undefined" "filters \<noteq> Prim Null" "validRef (length h) filters"
    "getProp h config ''logger'' = Inr loggerConfig"
    "getProp h config ''i18n'' = Inr i18nConfig"
    "getProp h config ''email'' = Inr (Ref e)" "e < length h"
    "getProp h config ''aws'' = Inr aws"
    "getProp h (Ref e) ''juiceResources'' = Inr juice"
    "juice \<noteq> Prim Undefined" "juice \<noteq> Prim Null" "validRef (length h) juice"
    "getProp h config ''buildDir'' = Inr buildDir"
    "length h' = length h + 12"
    "\<forall>a k. a < length h \<longrightarrow>
        getProp h' (Ref a) k =
          (if k = ''webResources'' \<and> juice = Ref a then Inr (Ref (length h + 11))
           else if k = ''i18n'' \<and> a = e then Inr i18nConfig
           else if k = ''views'' \<and> a = e then Inr (Ref (length h + 10))
           else if k = ''transport'' \<and> a = e then Inr (Ref (length h + 7))
           else if k = ''config'' \<and> a = la then Inr config
           else if k = ''translate'' \<and> filters = Ref a then Inr (Ref (length h + 4))
           else if k = ''meta'' \<and> a = root then Inr (Ref (length h))
           else if k = ''hasThirdPartyProviders'' \<and> auth = Ref a then Inr (Prim (Boolean b))
           else getProp h (Ref a) k)"
    "\<forall>a. a < length h \<longrightarrow> ointernal (h' ! a) = ointernal (h ! a) \<and> okind (h' ! a) = okind (h ! a)"
    "\<forall>k. k \<noteq> ''logger'' \<longrightarrow>
       (case i18nConfig of
          Ref ia \<Rightarrow> lookupProp ps k =
            (if k = ''meta'' \<and> ia = root then Ref (length h)
             else if k = ''hasThirdPartyProviders'' \<and> auth = Ref ia then Prim (Boolean b)
             else lookupProp (oprops (h ! ia)) k)
        | Prim s \<Rightarrow> ownProps h i18nConfig = Inr ps)"
    "\<forall>k. k \<noteq> ''root'' \<longrightarrow>
        lookupProp ps' k = (if k = ''translate'' \<and> filters = Ref va then Ref (length h + 4)
                            else if k = ''config'' \<and> va = la then config
                            else if k = ''transport'' \<and> va = e then Ref (length h + 7)
                            else if k = ''meta'' \<and> va = root then Ref (length h)
                            else if k = ''hasThirdPartyProviders'' \<and> auth = Ref va then Prim (Boolean b)
                            else lookupProp (oprops (h ! va)) k)"
    "ointernal (h' ! (length h)) = MetaResult config"
    "h' ! (length h + 1) = newLogger loggerConfig"
    "h' ! (length h + 2) = plainObject (AList.update ''logger'' (Ref (length h + 1)) ps)"
    "h' ! (length h + 3) = newI18N (Ref (length h + 2))"
    "h' ! (length h + 4) = translateFunction (Ref (length h + 3))"
    "h' ! (length h + 5) = plainObject [(''user'', Prim (env ext ''POSTMARK_API_TOKEN'')),
                                        (''pass'', Prim (env ext ''POSTMARK_API_TOKEN''))]"
    "h' ! (length h + 6) = plainObject [(''service'', Prim (String ''postmark'')),
                                        (''auth'', Ref (length h + 5)), (''logger'', Ref (length h + 1))]"
    "h' ! (length h + 7) = (createTransport (Ref (length h + 6)))
               \<lparr>ointernal := MailTransport (Ref (length h + 6)) [(''compile'', Ref (length h + 9))]\<rparr>"
    "h' ! (length h + 8) = plainObject [(''cloudFrontDomainName'', Prim (env ext ''AWS_CF_DOMAIN'')),
                                        (''aws'', aws)]"
    "h' ! (length h + 9) = base64ToS3 (Ref (length h + 8))"
    "h' ! (length h + 10) = plainObject (AList.update ''root''
                (Prim (String (pathJoin ext [dirname ext, ''..'', ''emails'']))) ps')"
    "h' ! (length h + 11) = plainObject [(''relativeTo'', buildDir)]"
proof -
  let ?n = "length h"
  from assms(1) obtain h2 where d: "derive h config = Inr h2" and a: "augment ext h2 config = Inr h'"
    by (auto simp add: pipeline_split)
  obtain auth providers b where
    r: "getProp h config ''auth'' = Inr auth" "getProp h auth ''providers'' = Inr providers"
      "some h providers = Inr b"
    and c2: "closedStore h2" and l2: "length h2 = ?n + 1"
    and A: "\<forall>a k. a < ?n \<longrightarrow>
              getProp h2 (Ref a) k =
                (if k = ''meta'' \<and> config = Ref a then Inr (Ref ?n)
                 else if k = ''hasThirdPartyProviders'' \<and> auth = Ref a then Inr (Prim (Boolean b))
                 else getProp h (Ref a) k)"
    and I: "\<forall>a. a < ?n \<longrightarrow> ointernal (h2 ! a) = ointernal (h ! a) \<and> okind (h2 ! a) = okind (h ! a)"
    and M: "h2 ! ?n = metaObject config"
    by (rule derive_result [OF d assms(2)]) (rule that; assumption)
  note A' = A [rule_format]
  obtain root va la filters loggerConfig i18nConfig ps e aws ps' juice buildDir where
    f: "config = Ref root"
    "root < length h2"
    "getProp h2 config ''views'' = Inr (Ref va)"
    "va < length h2"
    "getProp h2 (Ref va) ''locals'' = Inr (Ref la)"
    "la < length h2"
    "getProp h2 (Ref la) ''filters'' = Inr filters"
    "filters \<noteq> Prim Undefined"
    "filters \<noteq> Prim Null"
    "validRef (length h2) filters"
    "getProp h2 config ''logger'' = Inr loggerConfig"
    "getProp h2 config ''i18n'' = Inr i18nConfig"
    "ownProps h2 i18nConfig = Inr ps"
    "getProp h2 config ''email'' = Inr (Ref e)"
    "e < length h2"
    "getProp h2 config ''aws'' = Inr aws"
    "getProp h2 (Ref e) ''juiceResources'' = Inr juice"
    "juice \<noteq> Prim Undefined"
    "juice \<noteq> Prim Null"
    "validRef (length h2) juice"
    "getProp h2 config ''buildDir'' = Inr buildDir"
    and P: "(\<forall>k. k \<noteq> ''root'' \<longrightarrow>
        lookupProp ps' k = (if k = ''translate'' \<and> filters = Ref va then Ref (length h2 + 3)
                            else if k = ''config'' \<and> va = la then config
                            else if k = ''transport'' \<and> va = e then Ref (length h2 + 6)
                            else lookupProp (oprops (h2 ! va)) k))"
    and L: "length h' = length h2 + 11"
    and B: "(\<forall>a k. a < length h2 \<longrightarrow>
        getProp h' (Ref a) k =
          (if k = ''webResources'' \<and> juice = Ref a then Inr (Ref (length h2 + 10))
           else if k = ''i18n'' \<and> a = e then Inr i18nConfig
           else if k = ''views'' \<and> a = e then Inr (Ref (length h2 + 9))
           else if k = ''transport'' \<and> a = e then Inr (Ref (length h2 + 6))
           else if k = ''config'' \<and> a = la then Inr config
           else if k = ''translate'' \<and> filters = Ref a then Inr (Ref (length h2 + 3))
           else getProp h2 (Ref a) k))"
    and J: "(\<forall>a. a < length h2 \<longrightarrow> ointernal (h' ! a) = ointernal (h2 ! a) \<and> okind (h' ! a) = okind (h2 ! a))"
    and N: "h' ! (length h2) = newLogger loggerConfig"
    "h' ! (length h2 + 1) = plainObject (AList.update ''logger'' (Ref (length h2)) ps)"
    "h' ! (length h2 + 2) = newI18N (Ref (length h2 + 1))"
    "h' ! (length h2 + 3) = translateFunction (Ref (length h2 + 2))"
    "h' ! (length h2 + 4) = plainObject [(''user'', Prim (env ext ''POSTMARK_API_TOKEN'')),
                                        (''pass'', Prim (env ext ''POSTMARK_API_TOKEN''))]"
    "h' ! (length h2 + 5) = plainObject [(''service'', Prim (String ''postmark'')),
                                        (''auth'', Ref (length h2 + 4)), (''logger'', Ref (length h2))]"
    "h' ! (length h2 + 6) = (createTransport (Ref (length h2 + 5)))
               \<lparr>ointernal := MailTransport (Ref (length h2 + 5)) [(''compile'', Ref (length h2 + 8))]\<rparr>"
    "h' ! (length h2 + 7) = plainObject [(''cloudFrontDomainName'', Prim (env ext ''AWS_CF_DOMAIN'')),
                                        (''aws'', aws)]"
    "h' ! (length h2 + 8) = base64ToS3 (Ref (length h2 + 7))"
    "h' ! (length h2 + 9) = plainObject (AList.update ''root''
                (Prim (String (pathJoin ext [dirname ext, ''..'', ''emails'']))) ps')"
    "h' ! (length h2 + 10) = plainObject [(''relativeTo'', buildDir)]"
    by (rule augment_effect [OF a c2]) (rule that; assumption)
  have vc: "validRef ?n config" using r(1) by (simp add: getProp_source)
  have root: "root < ?n" using vc f(1) by simp
  have ar: "getProp h2 (Ref root) k = getProp h (Ref root) k"
    if "k \<noteq> ''meta''" "k \<noteq> ''hasThirdPartyProviders''" for k
    using A' [OF root, of k] that by simp
  have g1: "getProp h config ''views'' = Inr (Ref va)" using f(3) ar [of "''views''"] f(1) by simp
  have va: "va < ?n" using g1 assms(2) getProp_valid by fastforce
  have g2: "getProp h (Ref va) ''locals'' = Inr (Ref la)" using f(5) A' [OF va, of "''locals''"] by simp
  have la: "la < ?n" using g2 assms(2) getProp_valid by fastforce
  have g3: "getProp h (Ref la) ''filters'' = Inr filters" using f(7) A' [OF la, of "''filters''"] by simp
  have vf: "validRef ?n filters" using g3 assms(2) by (rule getProp_valid [rotated])
  have g4: "getProp h config ''logger'' = Inr loggerConfig" using f(11) ar [of "''logger''"] f(1) by simp
  have g5: "getProp h config ''i18n'' = Inr i18nConfig" using f(12) ar [of "''i18n''"] f(1) by simp
  have g6: "getProp h config ''email'' = Inr (Ref e)" using f(14) ar [of "''email''"] f(1) by simp
  have e: "e < ?n" using g6 assms(2) getProp_valid by fastforce
  have g7: "getProp h config ''aws'' = Inr aws" using f(16) ar [of "''aws''"] f(1) by simp
  have g8: "getProp h (Ref e) ''juiceResources'' = Inr juice"
    using f(17) A' [OF e, of "''juiceResources''"] by simp
  have vj: "validRef ?n juice" using g8 assms(2) by (rule getProp_valid [rotated])
  have g9: "getProp h config ''buildDir'' = Inr buildDir" using f(21) ar [of "''buildDir''"] f(1) by simp
  have sucs: "?n + 1 + 1 = ?n + 2" "?n + 1 + 2 = ?n + 3" "?n + 1 + 3 = ?n + 4" "?n + 1 + 4 = ?n + 5"
    "?n + 1 + 5 = ?n + 6" "?n + 1 + 6 = ?n + 7" "?n + 1 + 7 = ?n + 8" "?n + 1 + 8 = ?n + 9"
    "?n + 1 + 9 = ?n + 10" "?n + 1 + 10 = ?n + 11" "?n + 1 + 11 = ?n + 12"
    by simp_all
  have L': "length h' = ?n + 12" using L unfolding l2 sucs .
  have B': "\<forall>a k. a < length h \<longrightarrow>
        getProp h' (Ref a) k =
          (if k = ''webResources'' \<and> juice = Ref a then Inr (Ref (length h + 11))
           else if k = ''i18n'' \<and> a = e then Inr i18nConfig
           else if k = ''views'' \<and> a = e then Inr (Ref (length h + 10))
           else if k = ''transport'' \<and> a = e then Inr (Ref (length h + 7))
           else if k = ''config'' \<and> a = la then Inr config
           else if k = ''translate'' \<and> filters = Ref a then Inr (Ref (length h + 4))
           else if k = ''meta'' \<and> a = root then Inr (Ref (length h))
           else if k = ''hasThirdPartyProviders'' \<and> auth = Ref a then Inr (Prim (Boolean b))
           else getProp h (Ref a) k)"
  proof (intro allI impI)
    fix a k assume a: "a < ?n"
    then have "a < length h2" using l2 by simp
    from B [rule_format, OF this, of k] A' [OF a, of k]
    show "getProp h' (Ref a) k =
          (if k = ''webResources'' \<and> juice = Ref a then Inr (Ref (length h + 11))
           else if k = ''i18n'' \<and> a = e then Inr i18nConfig
           else if k = ''views'' \<and> a = e then Inr (Ref (length h + 10))
           else if k = ''transport'' \<and> a = e then Inr (Ref (length h + 7))
           else if k = ''config'' \<and> a = la then Inr config
           else if k = ''translate'' \<and> filters = Ref a then Inr (Ref (length h + 4))
           else if k = ''meta'' \<and> a = root then Inr (Ref (length h))
           else if k = ''hasThirdPartyProviders'' \<and> auth = Ref a then Inr (Prim (Boolean b))
           else getProp h (Ref a) k)"
      unfolding l2 sucs using f(1) by auto
  qed
  have J': "\<forall>a. a < length h \<longrightarrow> ointernal (h' ! a) = ointernal (h ! a) \<and> okind (h' ! a) = okind (h ! a)"
    using J I l2 by simp
  have PS: "\<forall>k. k \<noteq> ''logger'' \<longrightarrow>
       (case i18nConfig of
          Ref ia \<Rightarrow> lookupProp ps k =
            (if k = ''meta'' \<and> ia = root then Ref (length h)
             else if k = ''hasThirdPartyProviders'' \<and> auth = Ref ia then Prim (Boolean b)
             else lookupProp (oprops (h ! ia)) k)
        | Prim s \<Rightarrow> ownProps h i18nConfig = Inr ps)"
  proof (cases i18nConfig)
    case (Prim s)
    then show ?thesis using f(13) by (cases s) (simp_all add: ownProps.simps)
  next
    case (Ref ia)
    have ia: "ia < ?n" using g5 Ref assms(2) getProp_valid by fastforce
    show ?thesis
      unfolding Ref hval.case
    proof (intro allI impI)
      fix k :: string
      have "Inr (lookupProp ps k) = getProp h2 (Ref ia) k"
        using f(13) unfolding Ref by (rule lookupProp_ownProps)
      then have "Inr (lookupProp ps k) =
          (if k = ''meta'' \<and> config = Ref ia then Inr (Ref ?n)
           else if k = ''hasThirdPartyProviders'' \<and> auth = Ref ia then Inr (Prim (Boolean b))
           else Inr (lookupProp (oprops (h ! ia)) k))"
        using A' [OF ia, of k] getProp_Ref [OF ia, of k] by (auto split: if_splits)
      then show "lookupProp ps k =
            (if k = ''meta'' \<and> ia = root then Ref (length h)
             else if k = ''hasThirdPartyProviders'' \<and> auth = Ref ia then Prim (Boolean b)
             else lookupProp (oprops (h ! ia)) k)"
        using f(1) by (auto split: if_splits)
    qed
  qed
  have P': "\<forall>k. k \<noteq> ''root'' \<longrightarrow>
        lookupProp ps' k = (if k = ''translate'' \<and> filters = Ref va then Ref (length h + 4)
                            else if k = ''config'' \<and> va = la then config
                            else if k = ''transport'' \<and> va = e then Ref (length h + 7)
                            else if k = ''meta'' \<and> va = root then Ref (length h)
                            else if k = ''hasThirdPartyProviders'' \<and> auth = Ref va then Prim (Boolean b)
                            else lookupProp (oprops (h ! va)) k)"
  proof (intro allI impI)
    fix k :: string assume k: "k \<noteq> ''root''"
    have "getProp h2 (Ref va) k = Inr (lookupProp (oprops (h2 ! va)) k)"
      using va l2 by (simp add: getProp_Ref)
    then have "lookupProp (oprops (h2 ! va)) k =
       (if k = ''meta'' \<and> va = root then Ref ?n
        else if k = ''hasThirdPartyProviders'' \<and> auth = Ref va then Prim (Boolean b)
        else lookupProp (oprops (h ! va)) k)"
      using A' [OF va, of k] va f(1) by (auto simp add: getProp_Ref)
    then show "lookupProp ps' k = (if k = ''translate'' \<and> filters = Ref va then Ref (length h + 4)
                            else if k = ''config'' \<and> va = la then config
                            else if k = ''transport'' \<and> va = e then Ref (length h + 7)
                            else if k = ''meta'' \<and> va = root then Ref (length h)
                            else if k = ''hasThirdPartyProviders'' \<and> auth = Ref va then Prim (Boolean b)
                            else lookupProp (oprops (h ! va)) k)"
      using P [rule_format, OF k] unfolding l2 sucs by (auto split: if_splits)
  qed
  note N' = N [unfolded l2 sucs]
  have M': "ointernal (h' ! ?n) = MetaResult config"
    using J [rule_format, of ?n] M l2 by (simp add: metaObject_def)
  show thesis
    by (rule that) (rule f(1) root r g1 va g2 la g3 f(8) f(9) vf g4 g5 g6 e g7 g8 f(18) f(19) vj g9
        L' B' J' PS P' M' N')+
qed

section \<open>The exported configuration\<close>

lemma getPath2: "getPath h v [k1, k2] = bindE (getProp h v k1) (\<lambda>x. getProp h x k2)"
  by (auto simp add: bindE_def split: sum.splits)

lemma getPath3:
  "getPath h v [k1, k2, k3] =
     bindE (getProp h v k1) (\<lambda>x. bindE (getProp h x k2) (\<lambda>y. getProp h y k3))"
  by (auto simp add: bindE_def split: sum.splits)

lemma getPath4:
  "getPath h v [k1, k2, k3, k4] =
     bindE (getProp h v k1) (\<lambda>x. bindE (getProp h x k2) (\<lambda>y. bindE (getProp h y k3)
       (\<lambda>z. getProp h z k4)))"
  by (auto simp add: bindE_def split: sum.splits)

text \<open>
  C9. The exported configuration holds a reference to itself: the value read at
  \<^verbatim>\<open>views.locals.config\<close> is the configuration object, an allocated object, and a deep
  traversal that keeps no record of the objects it has seen does not return, whatever the
  number of nested calls it is allowed.
\<close>

theorem exported_configuration_is_cyclic:
  assumes "pipeline ext h config = Inr h'" "closedStore h"
  shows "getPath h' config [''views'', ''locals'', ''config''] = Inr config \<and>
         (\<exists>root. config = Ref root \<and> root < length h') \<and>
         (\<forall>fuel. deepCount fuel h' config = None)"
proof -
  obtain root va la filters e ps' i18nConfig juice auth b where
    f: "config = Ref root" "root < length h"
    "getProp h config ''views'' = Inr (Ref va)" "va < length h"
    "getProp h (Ref va) ''locals'' = Inr (Ref la)" "la < length h"
    and L: "length h' = length h + 12"
    and B: "\<forall>a k. a < length h \<longrightarrow>
        getProp h' (Ref a) k =
          (if k = ''webResources'' \<and> juice = Ref a then Inr (Ref (length h + 11))
           else if k = ''i18n'' \<and> a = e then Inr i18nConfig
           else if k = ''views'' \<and> a = e then Inr (Ref (length h + 10))
           else if k = ''transport'' \<and> a = e then Inr (Ref (length h + 7))
           else if k = ''config'' \<and> a = la then Inr config
           else if k = ''translate'' \<and> filters = Ref a then Inr (Ref (length h + 4))
           else if k = ''meta'' \<and> a = root then Inr (Ref (length h))
           else if k = ''hasThirdPartyProviders'' \<and> auth = Ref a then Inr (Prim (Boolean b))
           else getProp h (Ref a) k)"
    and P: "\<forall>k. k \<noteq> ''root'' \<longrightarrow>
        lookupProp ps' k = (if k = ''translate'' \<and> filters = Ref va then Ref (length h + 4)
                            else if k = ''config'' \<and> va = la then config
                            else if k = ''transport'' \<and> va = e then Ref (length h + 7)
                            else if k = ''meta'' \<and> va = root then Ref (length h)
                            else if k = ''hasThirdPartyProviders'' \<and> auth = Ref va then Prim (Boolean b)
                            else lookupProp (oprops (h ! va)) k)"
    and C: "h' ! (length h + 10) = plainObject (AList.update ''root''
                (Prim (String (pathJoin ext [dirname ext, ''..'', ''emails'']))) ps')"
    by (rule pipeline_effect [OF assms]) (rule that; assumption)
  note B' = B [rule_format]
  have g3: "getProp h' (Ref la) ''config'' = Inr (Ref root)"
    using B' [OF f(6), of "''config''"] f(1) by simp
  have lal: "lookupProp (oprops (h ! va)) ''locals'' = Ref la"
    using f(5) f(4) by (simp add: getProp_Ref)
  obtain v where g1: "getProp h' (Ref root) ''views'' = Inr (Ref v)"
    and g2: "getProp h' (Ref v) ''locals'' = Inr (Ref la)"
  proof (cases "root = e")
    case True
    have "getProp h' (Ref root) ''views'' = Inr (Ref (length h + 10))"
      using B' [OF f(2), of "''views''"] True by simp
    moreover have "getProp h' (Ref (length h + 10)) ''locals'' = Inr (Ref la)"
      using L C P [rule_format, of "''locals''"] lal
      by (simp add: getProp_Ref update_conv' lookupProp_def)
    ultimately show ?thesis by (rule that)
  next
    case False
    have "getProp h' (Ref root) ''views'' = Inr (Ref va)"
      using B' [OF f(2), of "''views''"] False f(1,3) by simp
    moreover have "getProp h' (Ref va) ''locals'' = Inr (Ref la)"
      using B' [OF f(4), of "''locals''"] f(5) by simp
    ultimately show ?thesis by (rule that)
  qed
  have "getPath h' config [''views'', ''locals'', ''config''] = Inr config"
    using g1 g2 g3 f(1) by (simp add: getPath3)
  moreover have "\<exists>root. config = Ref root \<and> root < length h'" using f(1,2) L by simp
  moreover have "\<forall>fuel. deepCount fuel h' config = None"
    using deepCount_cycle [OF g1 g2 g3] f(1) by simp
  ultimately show ?thesis by blast
qed

section \<open>The email views and the mail transport\<close>

text \<open>
  C10. The email view configuration is a shallow copy of the web view configuration, the
  email object not being the configuration itself: \<^verbatim>\<open>email.views.root\<close> is the emails
  directory and \<^verbatim>\<open>views.root\<close> is what it was; \<^verbatim>\<open>email.views\<close> is another object
  than \<^verbatim>\<open>views\<close>, but their \<^verbatim>\<open>options\<close> and \<^verbatim>\<open>locals\<close> are the same values,
  \<^verbatim>\<open>locals\<close> the same object, so that a property written through one path is read
  through the other.
\<close>

theorem email_views_shallow_copy:
  assumes "pipeline ext h config = Inr h'" "closedStore h"
    and "getProp h config ''email'' \<noteq> Inr config"
  shows "getPath h' config [''email'', ''views'', ''root''] =
           Inr (Prim (String (pathJoin ext [dirname ext, ''..'', ''emails'']))) \<and>
         getPath h' config [''views'', ''root''] = getPath h config [''views'', ''root''] \<and>
         getPath h' config [''email'', ''views''] \<noteq> getPath h' config [''views''] \<and>
         getPath h' config [''email'', ''views'', ''options''] =
           getPath h' config [''views'', ''options''] \<and>
         getPath h' config [''email'', ''views'', ''locals''] =
           getPath h' config [''views'', ''locals''] \<and>
         (\<exists>locals. getPath h' config [''views'', ''locals''] = Inr (Ref locals)) \<and>
         (\<forall>k v. bindE (writeThrough h' config [''email'', ''views'', ''locals''] k v)
                  (\<lambda>h2. readThrough h' h2 config [''views'', ''locals''] k) = Inr v) \<and>
         (\<forall>k v. bindE (writeThrough h' config [''views'', ''locals''] k v)
                  (\<lambda>h2. readThrough h' h2 config [''email'', ''views'', ''locals''] k) = Inr v)"
proof -
  obtain root va la filters e ps' i18nConfig juice auth b where
    f: "config = Ref root" "root < length h"
    "getProp h config ''views'' = Inr (Ref va)" "va < length h"
    "getProp h (Ref va) ''locals'' = Inr (Ref la)" "la < length h"
    "getProp h config ''email'' = Inr (Ref e)" "e < length h"
    and L: "length h' = length h + 12"
    and B: "\<forall>a k. a < length h \<longrightarrow>
        getProp h' (Ref a) k =
          (if k = ''webResources'' \<and> juice = Ref a then Inr (Ref (length h + 11))
           else if k = ''i18n'' \<and> a = e then Inr i18nConfig
           else if k = ''views'' \<and> a = e then Inr (Ref (length h + 10))
           else if k = ''transport'' \<and> a = e then Inr (Ref (length h + 7))
           else if k = ''config'' \<and> a = la then Inr config
           else if k = ''translate'' \<and> filters = Ref a then Inr (Ref (length h + 4))
           else if k = ''meta'' \<and> a = root then Inr (Ref (length h))
           else if k = ''hasThirdPartyProviders'' \<and> auth = Ref a then Inr (Prim (Boolean b))
           else getProp h (Ref a) k)"
    and P: "\<forall>k. k \<noteq> ''root'' \<longrightarrow>
        lookupProp ps' k = (if k = ''translate'' \<and> filters = Ref va then Ref (length h + 4)
                            else if k = ''config'' \<and> va = la then config
                            else if k = ''transport'' \<and> va = e then Ref (length h + 7)
                            else if k = ''meta'' \<and> va = root then Ref (length h)
                            else if k = ''hasThirdPartyProviders'' \<and> auth = Ref va then Prim (Boolean b)
                            else lookupProp (oprops (h ! va)) k)"
    and C: "h' ! (length h + 10) = plainObject (AList.update ''root''
                (Prim (String (pathJoin ext [dirname ext, ''..'', ''emails'']))) ps')"
    by (rule pipeline_effect [OF assms(1,2)]) (rule that; assumption)
  note B' = B [rule_format]
  let ?R = "Prim (String (pathJoin ext [dirname ext, ''..'', ''emails'']))"
  have ne: "e \<noteq> root" using assms(3) f(1,7) by auto
  have e1: "getProp h' (Ref root) ''email'' = Inr (Ref e)"
    using B' [OF f(2), of "''email''"] f(1,7) by simp
  have e2: "getProp h' (Ref e) ''views'' = Inr (Ref (length h + 10))"
    using B' [OF f(8), of "''views''"] by simp
  have c: "getProp h' (Ref (length h + 10)) k =
             Inr (lookupProp (AList.update ''root'' ?R ps') k)" for k
    using L C by (simp add: getProp_Ref)
  have c1: "getProp h' (Ref (length h + 10)) ''root'' = Inr ?R"
    unfolding c by (simp add: lookupProp_def update_conv')
  have c2: "getProp h' (Ref (length h + 10)) ''options'' = Inr (lookupProp (oprops (h ! va)) ''options'')"
    "getProp h' (Ref (length h + 10)) ''locals'' = Inr (lookupProp (oprops (h ! va)) ''locals'')"
    unfolding c using P [rule_format, of "''options''"] P [rule_format, of "''locals''"]
    by (simp_all add: lookupProp_def update_conv')
  have v1: "getProp h' (Ref root) ''views'' = Inr (Ref va)"
    using B' [OF f(2), of "''views''"] f(1,3) ne by simp
  have v2: "getProp h' (Ref va) ''options'' = getProp h (Ref va) ''options''"
    "getProp h' (Ref va) ''locals'' = getProp h (Ref va) ''locals''"
    "getProp h' (Ref va) ''root'' = getProp h (Ref va) ''root''"
    using B' [OF f(4), of "''options''"] B' [OF f(4), of "''locals''"] B' [OF f(4), of "''root''"]
    by simp_all
  have v3: "getProp h (Ref va) k = Inr (lookupProp (oprops (h ! va)) k)" for k
    using f(4) by (simp add: getProp_Ref)
  have t1: "getPath h' config [''email'', ''views'', ''root''] = Inr ?R"
    using e1 e2 c1 f(1) by (simp add: getPath3)
  have t2: "getPath h' config [''views'', ''root''] = getPath h config [''views'', ''root'']"
    using v1 v2(3) f(1,3) by (simp add: getPath2)
  have t3: "getPath h' config [''email'', ''views''] \<noteq> getPath h' config [''views'']"
    using e1 e2 v1 f(1,4) by (simp add: getPath2)
  have t4: "getPath h' config [''email'', ''views'', ''options''] = getPath h' config [''views'', ''options'']"
    "getPath h' config [''email'', ''views'', ''locals''] = getPath h' config [''views'', ''locals'']"
    using e1 e2 c2 v1 v2(1,2) v3 f(1) by (simp_all add: getPath3 getPath2)
  have t5: "getPath h' config [''views'', ''locals''] = Inr (Ref la)"
    using v1 v2(2) f(1,5) by (simp add: getPath2)
  have t6: "getPath h' config [''email'', ''views'', ''locals''] = Inr (Ref la)"
    using t4(2) t5 by simp
  have la': "la < length h'" using f(6) L by simp
  have w: "bindE (setProp h' (Ref la) k v) (\<lambda>h2. getProp h2 (Ref la) k) = Inr v" for k v
    using la' by (simp add: setProp.simps getProp_wr [unfolded wr_def])
  have t7: "bindE (writeThrough h' config [''email'', ''views'', ''locals''] k v)
                  (\<lambda>h2. readThrough h' h2 config [''views'', ''locals''] k) = Inr v" for k v
    using w [of k v] unfolding writeThrough_def readThrough_def t5 t6 by simp
  have t8: "bindE (writeThrough h' config [''views'', ''locals''] k v)
                  (\<lambda>h2. readThrough h' h2 config [''email'', ''views'', ''locals''] k) = Inr v" for k v
    using w [of k v] unfolding writeThrough_def readThrough_def t5 t6 by simp
  have t9: "\<exists>locals. getPath h' config [''views'', ''locals''] = Inr (Ref locals)"
    using t5 by (rule exI)
  show ?thesis
    apply (intro conjI allI)
    apply (rule t1 t2 t3 t4 t9 t7 t8)+
    done
qed

text \<open>
  C6. The pipeline constructs one mail transport, stored at \<^verbatim>\<open>email.transport\<close>: a new
  object, created for the service \<^verbatim>\<open>postmark\<close> with both credentials read from the
  environment, whose only plugin is the base64-to-S3 rewriter on the \<^verbatim>\<open>compile\<close> step,
  itself created from the CloudFront domain of the environment and the \<^verbatim>\<open>aws\<close> settings
  of the configuration. Every other transport of the final store was there before, with
  the plugins it had.
\<close>

theorem mail_transport_constructed:
  assumes "pipeline ext h config = Inr h'" "closedStore h"
  shows "\<exists>t options plugin pluginOptions.
      getPath h' config [''email'', ''transport''] = Inr (Ref t) \<and>
      length h \<le> t \<and> t < length h' \<and>
      ointernal (h' ! t) = MailTransport (Ref options) [(''compile'', Ref plugin)] \<and>
      getProp h' (Ref options) ''service'' = Inr (Prim (String ''postmark'')) \<and>
      getPath h' (Ref options) [''auth'', ''user''] = Inr (Prim (env ext ''POSTMARK_API_TOKEN'')) \<and>
      getPath h' (Ref options) [''auth'', ''pass''] = Inr (Prim (env ext ''POSTMARK_API_TOKEN'')) \<and>
      ointernal (h' ! plugin) = Base64ToS3 (Ref pluginOptions) \<and>
      getProp h' (Ref pluginOptions) ''cloudFrontDomainName'' =
        Inr (Prim (env ext ''AWS_CF_DOMAIN'')) \<and>
      getProp h' (Ref pluginOptions) ''aws'' = getProp h config ''aws'' \<and>
      (\<forall>a options' plugins.
         a < length h' \<and> a \<noteq> t \<and> ointernal (h' ! a) = MailTransport options' plugins \<longrightarrow>
         a < length h \<and> ointernal (h ! a) = MailTransport options' plugins)"
proof -
  obtain root filters e ps ps' i18nConfig loggerConfig buildDir aws juice auth b la where
    f: "config = Ref root" "root < length h"
    "getProp h config ''email'' = Inr (Ref e)" "e < length h"
    "getProp h config ''aws'' = Inr aws"
    and L: "length h' = length h + 12"
    and B: "\<forall>a k. a < length h \<longrightarrow>
        getProp h' (Ref a) k =
          (if k = ''webResources'' \<and> juice = Ref a then Inr (Ref (length h + 11))
           else if k = ''i18n'' \<and> a = e then Inr i18nConfig
           else if k = ''views'' \<and> a = e then Inr (Ref (length h + 10))
           else if k = ''transport'' \<and> a = e then Inr (Ref (length h + 7))
           else if k = ''config'' \<and> a = la then Inr config
           else if k = ''translate'' \<and> filters = Ref a then Inr (Ref (length h + 4))
           else if k = ''meta'' \<and> a = root then Inr (Ref (length h))
           else if k = ''hasThirdPartyProviders'' \<and> auth = Ref a then Inr (Prim (Boolean b))
           else getProp h (Ref a) k)"
    and J: "\<forall>a. a < length h \<longrightarrow> ointernal (h' ! a) = ointernal (h ! a) \<and> okind (h' ! a) = okind (h ! a)"
    and N: "ointernal (h' ! (length h)) = MetaResult config"
    "h' ! (length h + 1) = newLogger loggerConfig"
    "h' ! (length h + 2) = plainObject (AList.update ''logger'' (Ref (length h + 1)) ps)"
    "h' ! (length h + 3) = newI18N (Ref (length h + 2))"
    "h' ! (length h + 4) = translateFunction (Ref (length h + 3))"
    "h' ! (length h + 5) = plainObject [(''user'', Prim (env ext ''POSTMARK_API_TOKEN'')),
                                        (''pass'', Prim (env ext ''POSTMARK_API_TOKEN''))]"
    "h' ! (length h + 6) = plainObject [(''service'', Prim (String ''postmark'')),
                                        (''auth'', Ref (length h + 5)), (''logger'', Ref (length h + 1))]"
    "h' ! (length h + 7) = (createTransport (Ref (length h + 6)))
               \<lparr>ointernal := MailTransport (Ref (length h + 6)) [(''compile'', Ref (length h + 9))]\<rparr>"
    "h' ! (length h + 8) = plainObject [(''cloudFrontDomainName'', Prim (env ext ''AWS_CF_DOMAIN'')),
                                        (''aws'', aws)]"
    "h' ! (length h + 9) = base64ToS3 (Ref (length h + 8))"
    "h' ! (length h + 10) = plainObject (AList.update ''root''
                (Prim (String (pathJoin ext [dirname ext, ''..'', ''emails'']))) ps')"
    "h' ! (length h + 11) = plainObject [(''relativeTo'', buildDir)]"
    by (rule pipeline_effect [OF assms(1,2)]) (rule that; assumption)
  note B' = B [rule_format]
  let ?n = "length h"
  have e1: "getProp h' (Ref root) ''email'' = Inr (Ref e)"
    using B' [OF f(2), of "''email''"] f(1,3) by simp
  have e2: "getProp h' (Ref e) ''transport'' = Inr (Ref (?n + 7))"
    using B' [OF f(4), of "''transport''"] by simp
  have t1: "getPath h' config [''email'', ''transport''] = Inr (Ref (?n + 7))"
    using e1 e2 f(1) by (simp add: getPath2)
  have t2: "ointernal (h' ! (?n + 7)) = MailTransport (Ref (?n + 6)) [(''compile'', Ref (?n + 9))]"
    using N(8) by simp
  have t3: "getProp h' (Ref (?n + 6)) ''service'' = Inr (Prim (String ''postmark''))"
    "getProp h' (Ref (?n + 6)) ''auth'' = Inr (Ref (?n + 5))"
    using L N(7) by (simp_all add: getProp_Ref lookupProp_def)
  have t4: "getProp h' (Ref (?n + 5)) ''user'' = Inr (Prim (env ext ''POSTMARK_API_TOKEN''))"
    "getProp h' (Ref (?n + 5)) ''pass'' = Inr (Prim (env ext ''POSTMARK_API_TOKEN''))"
    using L N(6) by (simp_all add: getProp_Ref lookupProp_def)
  have t5: "getPath h' (Ref (?n + 6)) [''auth'', ''user''] = Inr (Prim (env ext ''POSTMARK_API_TOKEN''))"
    "getPath h' (Ref (?n + 6)) [''auth'', ''pass''] = Inr (Prim (env ext ''POSTMARK_API_TOKEN''))"
    using t3 t4 by (simp_all add: getPath2)
  have t6: "ointernal (h' ! (?n + 9)) = Base64ToS3 (Ref (?n + 8))"
    using N(10) by (simp add: base64ToS3_def)
  have t7: "getProp h' (Ref (?n + 8)) ''cloudFrontDomainName'' = Inr (Prim (env ext ''AWS_CF_DOMAIN''))"
    "getProp h' (Ref (?n + 8)) ''aws'' = getProp h config ''aws''"
    using L N(9) f(5) by (simp_all add: getProp_Ref lookupProp_def)
  have t8: "a < length h \<and> ointernal (h ! a) = MailTransport options' plugins"
    if a: "a < length h'" "a \<noteq> ?n + 7" "ointernal (h' ! a) = MailTransport options' plugins"
    for a options' plugins
  proof (cases "a < ?n")
    case True
    then show ?thesis using J a(3) by simp
  next
    case False
    then obtain i where i: "a = ?n + i" "i < 12" "i \<noteq> 7"
      using a(1,2) L by (metis add_less_cancel_left le_add_diff_inverse not_less)
    then consider "i = 0" | "i = 1" | "i = 2" | "i = 3" | "i = 4" | "i = 5" | "i = 6" | "i = 8"
      | "i = 9" | "i = 10" | "i = 11" by atomize_elim arith
    then have False
      using a(3) N unfolding i(1)
      by cases (simp_all add: newLogger_def plainObject_def newI18N_def translateFunction_def
          base64ToS3_def)
    then show ?thesis ..
  qed
  have t9: "length h \<le> ?n + 7" "?n + 7 < length h'" using L by simp_all
  have t10: "\<forall>a options' plugins.
         a < length h' \<and> a \<noteq> ?n + 7 \<and> ointernal (h' ! a) = MailTransport options' plugins \<longrightarrow>
         a < length h \<and> ointernal (h ! a) = MailTransport options' plugins"
    using t8 by (intro allI impI) (elim conjE)
  show ?thesis
    apply (rule exI [of _ "?n + 7"], rule exI [of _ "?n + 6"], rule exI [of _ "?n + 9"])
    apply (rule exI [of _ "?n + 8"])
    apply (intro conjI)
    apply (rule t1 t2 t3(1) t5 t6 t7 t9 t10)+
    done
qed

section \<open>The example configuration and the provider flag\<close>

lemma closed_example: "closedStore exampleStore"
  by (simp add: closedStore_def exampleStore_def plainObject_def)

lemmas run_defs =
  pipeline_def derive_def hasThirdPartyProviders_def metaSupport_def augment_def
  translateFilter_def globalConfig_def emailTransport_def emailViews_def bindE_def
  allocate_def lookupProp_def Let_def plainObject_def metaObject_def newLogger_def
  newI18N_def translateFunction_def createTransport_def base64ToS3_def setInternal_def
  getProp.simps setProp.simps ownProps.simps

lemma example_runs: "\<exists>h'. pipeline exampleHost exampleStore (Ref 0) = Inr h'"
  by (simp add: run_defs exampleStore_def exampleHost_def)

lemma variant_runs:
  "\<exists>h'. pipeline exampleHost extraProviderStore (Ref 0) = Inr h'"
  "\<exists>h'. pipeline exampleHost scalarFiltersStore (Ref 0) = Inr h'"
  by (simp_all add: run_defs extraProviderStore_def scalarFiltersStore_def exampleStore_def
      exampleHost_def)

lemma closed_variants: "closedStore extraProviderStore" "closedStore scalarFiltersStore"
  by (simp_all add: closedStore_def extraProviderStore_def scalarFiltersStore_def
      exampleStore_def plainObject_def)

text \<open>
  C4, as the code has it. After the derivation, \<^verbatim>\<open>auth.hasThirdPartyProviders\<close> of the
  final configuration (its \<^verbatim>\<open>auth\<close> being an object) is what \<^verbatim>\<open>_.some\<close> returns for
  \<^verbatim>\<open>auth.providers\<close> of the merged configuration. For a plain object that is: some own
  property, whatever its name, has a truthy value; or, when the object has a valid
  \<^verbatim>\<open>length\<close>, some value at an index below it is truthy.
\<close>

theorem hasThirdPartyProviders_is_some_provider:
  assumes "pipeline ext h config = Inr h'" "closedStore h"
  shows "\<exists>auth providers b.
      getProp h config ''auth'' = Inr auth \<and> getProp h auth ''providers'' = Inr providers \<and>
      some h providers = Inr b \<and>
      (\<forall>au. auth = Ref au \<longrightarrow>
         getPath h' config [''auth'', ''hasThirdPartyProviders''] = Inr (Prim (Boolean b))) \<and>
      (\<forall>p. providers = Ref p \<and> okind (h ! p) = PlainObject \<longrightarrow>
         b = (if validLength (lookupProp (oprops (h ! p)) ''length'')
              then (\<exists>i < lengthValue (lookupProp (oprops (h ! p)) ''length'').
                      hTruthy (lookupProp (oprops (h ! p)) (string_of_nat i)))
              else (\<exists>kv \<in> set (oprops (h ! p)). hTruthy (snd kv))))"
proof -
  from hasThirdPartyProviders_flag [OF assms] obtain auth providers b where
    r: "getProp h config ''auth'' = Inr auth" "getProp h auth ''providers'' = Inr providers"
      "some h providers = Inr b"
    and f: "\<forall>au. auth = Ref au \<longrightarrow>
         getPath h' config [''auth'', ''hasThirdPartyProviders''] = Inr (Prim (Boolean b))"
    by (elim exE conjE) (rule that; assumption)
  have c: "b = (if validLength (lookupProp (oprops (h ! p)) ''length'')
              then (\<exists>i < lengthValue (lookupProp (oprops (h ! p)) ''length'').
                      hTruthy (lookupProp (oprops (h ! p)) (string_of_nat i)))
              else (\<exists>kv \<in> set (oprops (h ! p)). hTruthy (snd kv)))"
    if p: "providers = Ref p" "okind (h ! p) = PlainObject" for p
  proof -
    have "p < length h" using r(2) assms(2) p(1) getProp_valid by fastforce
    from some_plain [OF this p(2)] r(3) p(1) show ?thesis by simp
  qed
  have c': "\<forall>p. providers = Ref p \<and> okind (h ! p) = PlainObject \<longrightarrow>
         b = (if validLength (lookupProp (oprops (h ! p)) ''length'')
              then (\<exists>i < lengthValue (lookupProp (oprops (h ! p)) ''length'').
                      hTruthy (lookupProp (oprops (h ! p)) (string_of_nat i)))
              else (\<exists>kv \<in> set (oprops (h ! p)). hTruthy (snd kv)))"
    using c by (intro allI impI) (elim conjE)
  show ?thesis
    apply (rule exI [of _ auth], rule exI [of _ providers], rule exI [of _ b])
    apply (intro conjI)
    apply (rule r f c')+
    done
qed

theorem hasThirdPartyProviders_is_some_provider_witness:
  "closedStore exampleStore \<and>
   getPath exampleStore (Ref 0) [''auth'', ''providers''] = Inr (Ref 16) \<and>
   exported exampleHost exampleStore (Ref 0) [''auth'', ''hasThirdPartyProviders''] =
     Inr (Prim (Boolean True))"
proof -
  obtain h' where r: "pipeline exampleHost exampleStore (Ref 0) = Inr h'"
    using example_runs by blast
  have g: "getPath exampleStore (Ref 0) [''auth'', ''providers''] = Inr (Ref 16)"
    by (simp add: getPath2 getProp.simps exampleStore_def plainObject_def lookupProp_def)
  have a: "getProp exampleStore (Ref 0) ''auth'' = Inr (Ref 15)"
    "getProp exampleStore (Ref 15) ''providers'' = Inr (Ref 16)"
    by (simp_all add: getProp.simps exampleStore_def plainObject_def lookupProp_def)
  have o: "exampleStore ! 16 =
      plainObject [(''facebook'', Prim (Boolean False)), (''twitter'', Prim (Boolean False)),
                  (''google'', Prim (Boolean True)), (''github'', Prim (Boolean False)),
                  (''linkedin'', Prim (Boolean False)), (''instagram'', Prim (Boolean False)),
                  (''stripe'', Prim (Boolean False))]"
    by (simp add: exampleStore_def)
  from hasThirdPartyProviders_is_some_provider [OF r closed_example] obtain auth providers b where
    t: "getProp exampleStore (Ref 0) ''auth'' = Inr auth"
      "getProp exampleStore auth ''providers'' = Inr providers"
    and f: "\<forall>au. auth = Ref au \<longrightarrow>
         getPath h' (Ref 0) [''auth'', ''hasThirdPartyProviders''] = Inr (Prim (Boolean b))"
    and c: "\<forall>p. providers = Ref p \<and> okind (exampleStore ! p) = PlainObject \<longrightarrow>
         b = (if validLength (lookupProp (oprops (exampleStore ! p)) ''length'')
              then (\<exists>i < lengthValue (lookupProp (oprops (exampleStore ! p)) ''length'').
                      hTruthy (lookupProp (oprops (exampleStore ! p)) (string_of_nat i)))
              else (\<exists>kv \<in> set (oprops (exampleStore ! p)). hTruthy (snd kv)))"
    by (elim exE conjE) (rule that; assumption)
  have au: "auth = Ref 15" using t(1) a(1) by simp
  then have pr: "providers = Ref 16" using t(2) a(2) by simp
  have "b = True"
    using c [rule_format, of 16] pr by (simp add: o plainObject_def lookupProp_def)
  with f au have "getPath h' (Ref 0) [''auth'', ''hasThirdPartyProviders''] = Inr (Prim (Boolean True))"
    by simp
  then show ?thesis using r closed_example g by (simp add: exported_def)
qed

text \<open>
  C4 as stated fails when \<^verbatim>\<open>auth.providers\<close> holds more than the seven named flags: with
  each of the seven \<^verbatim>\<open>false\<close> and a further provider \<^verbatim>\<open>true\<close> the derived field is
  \<^verbatim>\<open>true\<close>.
\<close>

theorem named_flags_counterexample:
  "exported exampleHost extraProviderStore (Ref 0) [''auth'', ''hasThirdPartyProviders''] =
     Inr (Prim (Boolean True)) \<and>
   getPath extraProviderStore (Ref 0) [''auth'', ''providers'', ''facebook''] = Inr (Prim (Boolean False)) \<and>
   getPath extraProviderStore (Ref 0) [''auth'', ''providers'', ''twitter''] = Inr (Prim (Boolean False)) \<and>
   getPath extraProviderStore (Ref 0) [''auth'', ''providers'', ''google''] = Inr (Prim (Boolean False)) \<and>
   getPath extraProviderStore (Ref 0) [''auth'', ''providers'', ''github''] = Inr (Prim (Boolean False)) \<and>
   getPath extraProviderStore (Ref 0) [''auth'', ''providers'', ''linkedin''] = Inr (Prim (Boolean False)) \<and>
   getPath extraProviderStore (Ref 0) [''auth'', ''providers'', ''instagram''] = Inr (Prim (Boolean False)) \<and>
   getPath extraProviderStore (Ref 0) [''auth'', ''providers'', ''stripe''] = Inr (Prim (Boolean False))"
  by (simp add: exported_def getPath2 getPath3 run_defs some.simps extraProviderStore_def
      exampleStore_def exampleHost_def)

theorem exported_configuration_is_cyclic_witness:
  "closedStore exampleStore \<and>
   (\<exists>h'. pipeline exampleHost exampleStore (Ref 0) = Inr h' \<and>
         getPath h' (Ref 0) [''views'', ''locals'', ''config''] = Inr (Ref 0) \<and>
         deepCount 1000 h' (Ref 0) = None)"
proof -
  obtain h' where r: "pipeline exampleHost exampleStore (Ref 0) = Inr h'"
    using example_runs by blast
  from exported_configuration_is_cyclic [OF r closed_example] r closed_example
  show ?thesis by blast
qed

theorem email_views_shallow_copy_witness:
  "closedStore exampleStore \<and>
   getProp exampleStore (Ref 0) ''email'' = Inr (Ref 1) \<and>
   (\<exists>h'. pipeline exampleHost exampleStore (Ref 0) = Inr h' \<and>
         getPath h' (Ref 0) [''email'', ''views'', ''root''] = Inr (Prim (String ''/srv/app/emails'')) \<and>
         getPath h' (Ref 0) [''views'', ''root''] = Inr (Prim (String ''/srv/app/app/views'')) \<and>
         getPath h' (Ref 0) [''email'', ''views'', ''locals''] =
           getPath h' (Ref 0) [''views'', ''locals''] \<and>
         bindE (writeThrough h' (Ref 0) [''email'', ''views'', ''locals''] ''pretty'' (Prim (Boolean False)))
           (\<lambda>h2. readThrough h' h2 (Ref 0) [''views'', ''locals''] ''pretty'') =
           Inr (Prim (Boolean False)))"
proof -
  obtain h' where r: "pipeline exampleHost exampleStore (Ref 0) = Inr h'"
    using example_runs by blast
  have e: "getProp exampleStore (Ref 0) ''email'' = Inr (Ref 1)"
    by (simp add: getProp.simps exampleStore_def plainObject_def lookupProp_def)
  then have ne: "getProp exampleStore (Ref 0) ''email'' \<noteq> Inr (Ref 0)" by simp
  have v: "getPath exampleStore (Ref 0) [''views'', ''root''] = Inr (Prim (String ''/srv/app/app/views''))"
    by (simp add: getPath2 getProp.simps exampleStore_def plainObject_def lookupProp_def)
  have j: "pathJoin exampleHost [dirname exampleHost, ''..'', ''emails''] = ''/srv/app/emails''"
    by (simp add: exampleHost_def)
  note t = email_views_shallow_copy [OF r closed_example ne, unfolded j v]
  show ?thesis
    apply (intro conjI exI [of _ h'])
    apply (rule closed_example e r)+
    apply (rule t [THEN conjunct1])
    apply (rule t [THEN conjunct2, THEN conjunct1])
    apply (rule t [THEN conjunct2, THEN conjunct2, THEN conjunct2, THEN conjunct2, THEN conjunct1])
    using t apply blast
    done
qed

theorem mail_transport_constructed_witness:
  "closedStore exampleStore \<and>
   (\<exists>h' t options plugin pluginOptions.
      pipeline exampleHost exampleStore (Ref 0) = Inr h' \<and>
      getPath h' (Ref 0) [''email'', ''transport''] = Inr (Ref t) \<and>
      17 \<le> t \<and>
      ointernal (h' ! t) = MailTransport (Ref options) [(''compile'', Ref plugin)] \<and>
      getProp h' (Ref options) ''service'' = Inr (Prim (String ''postmark'')) \<and>
      getPath h' (Ref options) [''auth'', ''user''] = Inr (Prim (String ''postmark-token'')) \<and>
      getPath h' (Ref options) [''auth'', ''pass''] = Inr (Prim (String ''postmark-token'')) \<and>
      ointernal (h' ! plugin) = Base64ToS3 (Ref pluginOptions) \<and>
      getProp h' (Ref pluginOptions) ''cloudFrontDomainName'' =
        Inr (Prim (String ''cdn.example.com'')) \<and>
      getProp h' (Ref pluginOptions) ''aws'' = Inr (Ref 7))"
proof -
  obtain h' where r: "pipeline exampleHost exampleStore (Ref 0) = Inr h'"
    using example_runs by blast
  have l: "length exampleStore = 17" by (simp add: exampleStore_def)
  have a: "getProp exampleStore (Ref 0) ''aws'' = Inr (Ref 7)"
    by (simp add: getProp.simps exampleStore_def plainObject_def lookupProp_def)
  have e: "env exampleHost ''POSTMARK_API_TOKEN'' = String ''postmark-token''"
    "env exampleHost ''AWS_CF_DOMAIN'' = String ''cdn.example.com''"
    by (simp_all add: exampleHost_def)
  from mail_transport_constructed [OF r closed_example, unfolded l a e] r closed_example
  show ?thesis by blast
qed

section \<open>The translate filter\<close>

text \<open>
  C7, as the code has it. When \<^verbatim>\<open>views.locals.filters\<close> of the merged configuration is
  an object, the final configuration holds a function at
  \<^verbatim>\<open>views.locals.filters.translate\<close>. The function closes over the localization engine,
  the engine was constructed from a copy of the own properties of the \<^verbatim>\<open>i18n\<close> settings
  of the merged configuration (its phrases and directory among them) with the logger
  added, and a call with any arguments returns what the translate function of that engine
  returns for the same arguments.
\<close>

theorem translate_filter_forwards:
  assumes "pipeline ext h config = Inr h'" "closedStore h"
    and "getPath h config [''views'', ''locals'', ''filters''] = Inr (Ref f)"
  shows "\<exists>fn engine options logger loggerConfig i18nConfig ps.
      getPath h' config [''views'', ''locals'', ''filters'', ''translate''] = Inr (Ref fn) \<and>
      fn < length h' \<and> okind (h' ! fn) = FunctionObject \<and>
      ointernal (h' ! fn) = TranslateFilter (Ref engine) \<and>
      ointernal (h' ! engine) = I18NInstance (Ref options) \<and>
      getProp h' (Ref options) ''logger'' = Inr (Ref logger) \<and>
      getProp h config ''logger'' = Inr loggerConfig \<and>
      ointernal (h' ! logger) = LoggerInstance loggerConfig \<and>
      getProp h config ''i18n'' = Inr i18nConfig \<and> ownProps h i18nConfig = Inr ps \<and>
      (\<forall>k. k \<notin> {''logger'', ''meta'', ''hasThirdPartyProviders''} \<longrightarrow>
           getProp h' (Ref options) k = Inr (lookupProp ps k)) \<and>
      (\<forall>args. callFilter ext h' (Ref fn) args = apiT ext h' (Ref options) args)"
proof -
  obtain root va la filters e sp ps' i18nConfig loggerConfig juice auth b where
    f: "config = Ref root" "root < length h"
    "getProp h config ''views'' = Inr (Ref va)" "va < length h"
    "getProp h (Ref va) ''locals'' = Inr (Ref la)" "la < length h"
    "getProp h (Ref la) ''filters'' = Inr filters"
    "getProp h config ''logger'' = Inr loggerConfig"
    "getProp h config ''i18n'' = Inr i18nConfig"
    and L: "length h' = length h + 12"
    and B: "\<forall>a k. a < length h \<longrightarrow>
        getProp h' (Ref a) k =
          (if k = ''webResources'' \<and> juice = Ref a then Inr (Ref (length h + 11))
           else if k = ''i18n'' \<and> a = e then Inr i18nConfig
           else if k = ''views'' \<and> a = e then Inr (Ref (length h + 10))
           else if k = ''transport'' \<and> a = e then Inr (Ref (length h + 7))
           else if k = ''config'' \<and> a = la then Inr config
           else if k = ''translate'' \<and> filters = Ref a then Inr (Ref (length h + 4))
           else if k = ''meta'' \<and> a = root then Inr (Ref (length h))
           else if k = ''hasThirdPartyProviders'' \<and> auth = Ref a then Inr (Prim (Boolean b))
           else getProp h (Ref a) k)"
    and PS: "\<forall>k. k \<noteq> ''logger'' \<longrightarrow>
       (case i18nConfig of
          Ref ia \<Rightarrow> lookupProp sp k =
            (if k = ''meta'' \<and> ia = root then Ref (length h)
             else if k = ''hasThirdPartyProviders'' \<and> auth = Ref ia then Prim (Boolean b)
             else lookupProp (oprops (h ! ia)) k)
        | Prim s \<Rightarrow> ownProps h i18nConfig = Inr sp)"
    and P: "\<forall>k. k \<noteq> ''root'' \<longrightarrow>
        lookupProp ps' k = (if k = ''translate'' \<and> filters = Ref va then Ref (length h + 4)
                            else if k = ''config'' \<and> va = la then config
                            else if k = ''transport'' \<and> va = e then Ref (length h + 7)
                            else if k = ''meta'' \<and> va = root then Ref (length h)
                            else if k = ''hasThirdPartyProviders'' \<and> auth = Ref va then Prim (Boolean b)
                            else lookupProp (oprops (h ! va)) k)"
    and N: "h' ! (length h + 1) = newLogger loggerConfig"
    "h' ! (length h + 2) = plainObject (AList.update ''logger'' (Ref (length h + 1)) sp)"
    "h' ! (length h + 3) = newI18N (Ref (length h + 2))"
    "h' ! (length h + 4) = translateFunction (Ref (length h + 3))"
    and C: "h' ! (length h + 10) = plainObject (AList.update ''root''
                (Prim (String (pathJoin ext [dirname ext, ''..'', ''emails'']))) ps')"
    by (rule pipeline_effect [OF assms(1,2)]) (rule that; assumption)
  note B' = B [rule_format]
  let ?n = "length h"
  have fl: "filters = Ref f"
    using assms(3) f(1,3,5,7) by (simp add: getPath3)
  have fv: "f < length h" using f(7) assms(2) fl getProp_valid by fastforce
  obtain ps where ps: "ownProps h i18nConfig = Inr ps"
    and pk: "\<And>k. k \<notin> {''logger'', ''meta'', ''hasThirdPartyProviders''} \<Longrightarrow>
                lookupProp sp k = lookupProp ps k"
  proof (cases i18nConfig)
    case (Ref ia)
    have iv: "ia < length h" using f(9) assms(2) Ref getProp_valid by fastforce
    have "ownProps h i18nConfig = Inr (oprops (h ! ia))"
      using iv Ref by (simp add: ownProps.simps)
    moreover have "lookupProp sp k = lookupProp (oprops (h ! ia)) k"
      if "k \<notin> {''logger'', ''meta'', ''hasThirdPartyProviders''}" for k
      using PS [rule_format, of k] that unfolding Ref by simp
    ultimately show ?thesis by (rule that)
  next
    case (Prim s)
    have "ownProps h i18nConfig = Inr sp"
      using PS [rule_format, of "''phrases''"] unfolding Prim by simp
    then show ?thesis by (rule that) simp
  qed
  have lal: "lookupProp (oprops (h ! va)) ''locals'' = Ref la"
    using f(5) f(4) by (simp add: getProp_Ref)
  obtain v where g1: "getProp h' (Ref root) ''views'' = Inr (Ref v)"
    and g2: "getProp h' (Ref v) ''locals'' = Inr (Ref la)"
  proof (cases "root = e")
    case True
    have "getProp h' (Ref root) ''views'' = Inr (Ref (length h + 10))"
      using B' [OF f(2), of "''views''"] True by simp
    moreover have "getProp h' (Ref (length h + 10)) ''locals'' = Inr (Ref la)"
      using L C P [rule_format, of "''locals''"] lal
      by (simp add: getProp_Ref update_conv' lookupProp_def)
    ultimately show ?thesis by (rule that)
  next
    case False
    have "getProp h' (Ref root) ''views'' = Inr (Ref va)"
      using B' [OF f(2), of "''views''"] False f(1,3) by simp
    moreover have "getProp h' (Ref va) ''locals'' = Inr (Ref la)"
      using B' [OF f(4), of "''locals''"] f(5) by simp
    ultimately show ?thesis by (rule that)
  qed
  have g3: "getProp h' (Ref la) ''filters'' = Inr (Ref f)"
    using B' [OF f(6), of "''filters''"] f(7) fl by simp
  have g4: "getProp h' (Ref f) ''translate'' = Inr (Ref (?n + 4))"
    using B' [OF fv, of "''translate''"] fl by simp
  have t1: "getPath h' config [''views'', ''locals'', ''filters'', ''translate''] = Inr (Ref (?n + 4))"
    using g1 g2 g3 g4 f(1) by (simp add: getPath4)
  have t2: "?n + 4 < length h'" using L by simp
  have t3: "okind (h' ! (?n + 4)) = FunctionObject"
    "ointernal (h' ! (?n + 4)) = TranslateFilter (Ref (?n + 3))"
    using N(4) by (simp_all add: translateFunction_def)
  have t4: "ointernal (h' ! (?n + 3)) = I18NInstance (Ref (?n + 2))"
    using N(3) by (simp add: newI18N_def)
  have o: "getProp h' (Ref (?n + 2)) k =
             Inr (lookupProp (AList.update ''logger'' (Ref (?n + 1)) sp) k)" for k
    using L N(2) by (simp add: getProp_Ref plainObject_def)
  have t5: "getProp h' (Ref (?n + 2)) ''logger'' = Inr (Ref (?n + 1))"
    unfolding o by (simp add: lookupProp_def update_conv')
  have t6: "ointernal (h' ! (?n + 1)) = LoggerInstance loggerConfig"
    using N(1) by (simp add: newLogger_def)
  have t7: "getProp h' (Ref (?n + 2)) k = Inr (lookupProp ps k)"
    if k: "k \<notin> {''logger'', ''meta'', ''hasThirdPartyProviders''}" for k
  proof -
    from k have k': "k \<noteq> ''logger''" by simp
    show ?thesis
      unfolding o using k' pk [OF k] by (simp add: lookupProp_def update_conv')
  qed
  have t8: "callFilter ext h' (Ref (?n + 4)) args = apiT ext h' (Ref (?n + 2)) args" for args
    using L t3(2) t4 by (simp add: callFilter_def engineTranslate_def)
  have t9: "\<forall>k. k \<notin> {''logger'', ''meta'', ''hasThirdPartyProviders''} \<longrightarrow>
           getProp h' (Ref (?n + 2)) k = Inr (lookupProp ps k)"
    using t7 by (intro allI impI)
  have t10: "\<forall>args. callFilter ext h' (Ref (?n + 4)) args = apiT ext h' (Ref (?n + 2)) args"
    using t8 by (intro allI)
  show ?thesis
    apply (rule exI [of _ "?n + 4"], rule exI [of _ "?n + 3"], rule exI [of _ "?n + 2"])
    apply (rule exI [of _ "?n + 1"], rule exI [of _ loggerConfig])
    apply (rule exI [of _ i18nConfig], rule exI [of _ ps])
    apply (intro conjI)
    apply (rule t1 t2 t3 t4 t5 t6 f(8) f(9) ps t9 t10)+
    done
qed

theorem translate_filter_forwards_witness:
  "closedStore exampleStore \<and>
   getPath exampleStore (Ref 0) [''views'', ''locals'', ''filters''] = Inr (Ref 14) \<and>
   (\<exists>h' fn engine options.
      pipeline exampleHost exampleStore (Ref 0) = Inr h' \<and>
      getPath h' (Ref 0) [''views'', ''locals'', ''filters'', ''translate''] = Inr (Ref fn) \<and>
      okind (h' ! fn) = FunctionObject \<and>
      ointernal (h' ! fn) = TranslateFilter (Ref engine) \<and>
      ointernal (h' ! engine) = I18NInstance (Ref options) \<and>
      getProp h' (Ref options) ''phrases'' = Inr (Ref 6) \<and>
      getProp h' (Ref options) ''directory'' = Inr (Prim (String ''/srv/app/locales'')) \<and>
      callFilter exampleHost h' (Ref fn) [Prim (String ''HELLO''), Prim (String ''es'')] =
        Inr (Prim (String ''HELLO'')))"
proof -
  obtain h' where r: "pipeline exampleHost exampleStore (Ref 0) = Inr h'"
    using example_runs by blast
  have g: "getPath exampleStore (Ref 0) [''views'', ''locals'', ''filters''] = Inr (Ref 14)"
    by (simp add: getPath3 getProp.simps exampleStore_def plainObject_def lookupProp_def)
  have i: "getProp exampleStore (Ref 0) ''i18n'' = Inr (Ref 5)"
    by (simp add: getProp.simps exampleStore_def plainObject_def lookupProp_def)
  have p: "ownProps exampleStore (Ref 5) =
             Inr [(''phrases'', Ref 6), (''directory'', Prim (String ''/srv/app/locales''))]"
    by (simp add: ownProps.simps exampleStore_def plainObject_def)
  have a: "apiT exampleHost s options [Prim (String ''HELLO''), Prim (String ''es'')] =
             Inr (Prim (String ''HELLO''))" for s options
    by (simp add: exampleHost_def)
  from translate_filter_forwards [OF r closed_example g]
  obtain fn engine options i18nConfig ps where
    t: "getPath h' (Ref 0) [''views'', ''locals'', ''filters'', ''translate''] = Inr (Ref fn)"
      "okind (h' ! fn) = FunctionObject"
      "ointernal (h' ! fn) = TranslateFilter (Ref engine)"
      "ointernal (h' ! engine) = I18NInstance (Ref options)"
      and ic: "getProp exampleStore (Ref 0) ''i18n'' = Inr i18nConfig"
        "ownProps exampleStore i18nConfig = Inr ps"
      and k: "\<forall>k. k \<notin> {''logger'', ''meta'', ''hasThirdPartyProviders''} \<longrightarrow>
           getProp h' (Ref options) k = Inr (lookupProp ps k)"
      and c: "\<forall>args. callFilter exampleHost h' (Ref fn) args = apiT exampleHost h' (Ref options) args"
    by (elim exE conjE) (rule that; assumption)
  have ps: "ps = [(''phrases'', Ref 6), (''directory'', Prim (String ''/srv/app/locales''))]"
    using ic i p by simp
  have k1: "getProp h' (Ref options) ''phrases'' = Inr (Ref 6)"
    using k [rule_format, of "''phrases''"] by (simp add: ps lookupProp_def)
  have k2: "getProp h' (Ref options) ''directory'' = Inr (Prim (String ''/srv/app/locales''))"
    using k [rule_format, of "''directory''"] by (simp add: ps lookupProp_def)
  have c1: "callFilter exampleHost h' (Ref fn) [Prim (String ''HELLO''), Prim (String ''es'')] =
        Inr (Prim (String ''HELLO''))"
    using c [rule_format, of "[Prim (String ''HELLO''), Prim (String ''es'')]"] a by simp
  show ?thesis
    apply (intro conjI)
    apply (rule closed_example g)+
    apply (rule exI [of _ h'], rule exI [of _ fn], rule exI [of _ engine], rule exI [of _ options])
    apply (intro conjI)
    apply (rule r t k1 k2 c1)+
    done
qed

text \<open>
  C7 as stated fails when an overlay replaces \<^verbatim>\<open>views.locals.filters\<close> by a scalar: the
  module is not in strict mode, the assignment of line 252 to a property of
  \<^verbatim>\<open>true\<close> is dropped, the pipeline completes, and the path holds no function.
\<close>

theorem translate_filter_counterexample:
  "getPath scalarFiltersStore (Ref 0) [''views'', ''locals'', ''filters''] = Inr (Prim (Boolean True)) \<and>
   exported exampleHost scalarFiltersStore (Ref 0) [''views'', ''locals'', ''filters''] =
     Inr (Prim (Boolean True)) \<and>
   exported exampleHost scalarFiltersStore (Ref 0) [''views'', ''locals'', ''filters'', ''translate''] =
     Inr (Prim Undefined)"
  by (simp add: exported_def getPath3 getPath4 run_defs some.simps scalarFiltersStore_def
      exampleStore_def exampleHost_def)

section \<open>What the augmentation writes\<close>








section \<open>The titles of pages\<close>

lemma substitute_plain: "CHR ''{'' \<notin> set template \<Longrightarrow> substitute app template = template"
  by (induction template) auto




end
